theory Spec2Isabelle
  imports Complex_Main "HOL-Library.AList"
begin

section \<open>The task board: data model\<close>

text \<open>
  The application is one React component, \<^verbatim>\<open>App\<close>, whose state is a dozen
  \<^verbatim>\<open>useState\<close> cells and whose event handlers replace the task array by a new one.
  The model is a record of those cells and one function per handler, from the old state to
  the new one.

  A JavaScript string is modelled as a \<^typ>\<open>string\<close>, one \<^typ>\<open>char\<close> per code unit, so
  that \<^verbatim>\<open>s.length\<close> is \<^term>\<open>length s\<close>; a \<^typ>\<open>char\<close> has eight bits, so the strings of
  the model are those of code units below 256. \<^verbatim>\<open>null\<close> is \<^term>\<open>None\<close>. A value that the
  source reads from the clock or from the random generator (\<^verbatim>\<open>new Date()\<close>, \<^verbatim>\<open>genId()\<close>)
  is an argument of the handler that reads it.
\<close>

definition COLUMNS :: "string list" where
  "COLUMNS = [''Backlog'', ''In Progress'', ''Review/QA'', ''Completed'']"

definition MAX_TITLE :: nat where
  "MAX_TITLE = 100"

definition MAX_NOTES :: nat where
  "MAX_NOTES = 2000"

text \<open>
  The form data has the six editable fields. A task is the form data extended by
  \<^verbatim>\<open>id\<close>, \<^verbatim>\<open>createdAt\<close> and \<^verbatim>\<open>completedAt\<close>, as
  \<^verbatim>\<open>{ ...formData, id:genId(), createdAt:..., completedAt:null }\<close> builds it.
\<close>

record draft =
  title :: string
  priority :: string
  category :: string
  due :: string
  "notes" :: string
  stage :: string

record task = draft +
  task_id :: string
  createdAt :: string
  completedAt :: "string option"

definition DEFAULT_TASK :: draft where
  "DEFAULT_TASK = \<lparr>title = '''', priority = ''Medium'', category = ''Internal'',
     due = '''', notes = '''', stage = ''Backlog''\<rparr>"

text \<open>The messages of \<^verbatim>\<open>showToast\<close>, one constructor per call site.\<close>

datatype toast_msg =
    CouldNotLoad
  | CouldNotSave
  | TaskUpdated
  | TaskCreated
  | TaskDeleted
  | NotesExceed
  | NotesSaved
  | NoTasksToExport
  | ExportSuccessful
  | ExportFailed
  | MovedTo string

record app =
  tasks :: "task list"
  loaded :: bool
  showForm :: bool
  formData :: draft
  formErrors :: "(string \<times> string) list"
  editId :: "string option"
  activeNote :: "string option"
  noteText :: string
  exportMenu :: bool
  search :: string
  dragging :: "string option"
  dragOver :: "string option"
  toast :: "toast_msg option"

definition initial :: app where
  "initial = \<lparr>tasks = [], loaded = False, showForm = False, formData = DEFAULT_TASK,
     formErrors = [], editId = None, activeNote = None, noteText = '''',
     exportMenu = False, search = '''', dragging = None, dragOver = None, toast = None\<rparr>"

subsection \<open>JavaScript primitives the handlers use\<close>

text \<open>
  A string is truthy unless it is empty; \<^verbatim>\<open>null\<close> is falsy. \<^verbatim>\<open>if (editId)\<close>,
  \<^verbatim>\<open>if (dragging)\<close> and \<^verbatim>\<open>if (!str)\<close> test this.
\<close>

definition truthy :: "string option \<Rightarrow> bool" where
  "truthy v = (case v of None \<Rightarrow> False | Some s \<Rightarrow> s \<noteq> [])"

text \<open>
  \<^verbatim>\<open>Array.prototype.indexOf\<close> returns \<open>-1\<close> when the element is missing, and indexing
  an array out of its range gives \<^verbatim>\<open>undefined\<close>, here \<^term>\<open>None\<close>.
\<close>

fun indexOfFrom :: "nat \<Rightarrow> 'a list \<Rightarrow> 'a \<Rightarrow> int" where
  "indexOfFrom k [] y = - 1"
| "indexOfFrom k (x # xs) y = (if x = y then int k else indexOfFrom (Suc k) xs y)"

definition indexOf :: "'a list \<Rightarrow> 'a \<Rightarrow> int" where
  "indexOf xs y = indexOfFrom 0 xs y"

definition elemAt :: "'a list \<Rightarrow> int \<Rightarrow> 'a option" where
  "elemAt xs i = (if 0 \<le> i \<and> i < int (length xs) then Some (xs ! nat i) else None)"

text \<open>
  \<^verbatim>\<open>String.prototype.trim\<close> removes white space at both ends. Of the code units below 256
  the white space and line terminator characters are TAB, LF, VT, FF, CR, SP and NBSP.
\<close>

definition isWhiteSpace :: "char \<Rightarrow> bool" where
  "isWhiteSpace c = ((of_char c :: nat) \<in> {9, 10, 11, 12, 13, 32, 160})"

definition trim :: "string \<Rightarrow> string" where
  "trim s = rev (dropWhile isWhiteSpace (rev (dropWhile isWhiteSpace s)))"

text \<open>The decimal digits of a number, as a template literal prints \<^verbatim>\<open>${MAX_TITLE}\<close>.\<close>

definition digit :: "nat \<Rightarrow> char" where
  "digit d = ''0123456789'' ! d"

fun decimal :: "nat \<Rightarrow> string" where
  "decimal n = (if n < 10 then [digit n] else decimal (n div 10) @ [digit (n mod 10)])"

section \<open>Validation\<close>

text \<open>
  \<^verbatim>\<open>
  function validateForm(data) {
    const errs = {}
    if (!data.title.trim())         errs.title = 'Title is required.'
    if (data.title.length > MAX_TITLE) errs.title = `Max ${MAX_TITLE} characters.`
    if (data.notes.length > MAX_NOTES) errs.notes = `Max ${MAX_NOTES} characters.`
    return errs
  }
  \<close>
  The object \<^verbatim>\<open>errs\<close> is an association list; an assignment \<^verbatim>\<open>errs.k = v\<close> is
  \<^term>\<open>AList.update k v\<close>, which replaces the value of a key that is there and appends a
  new key otherwise, so \<^verbatim>\<open>Object.keys(errs).length\<close> is the length of the list.
\<close>

definition validateForm :: "draft \<Rightarrow> (string \<times> string) list" where
  "validateForm data =
    (let errs = [];
         errs = (if trim (title data) = [] then AList.update ''title'' ''Title is required.'' errs
                 else errs);
         errs = (if length (title data) > MAX_TITLE
                 then AList.update ''title'' (''Max '' @ decimal MAX_TITLE @ '' characters.'') errs
                 else errs);
         errs = (if length (notes data) > MAX_NOTES
                 then AList.update ''notes'' (''Max '' @ decimal MAX_NOTES @ '' characters.'') errs
                 else errs)
     in errs)"

section \<open>The handlers that change the task array\<close>

text \<open>
  \<^verbatim>\<open>{ ...x, ...formData }\<close>: the six fields of the form replace those of the task, the
  other three stay.
\<close>

definition spread :: "task \<Rightarrow> draft \<Rightarrow> task" where
  "spread x fd = x\<lparr>title := title fd, priority := priority fd, category := category fd,
     due := due fd, notes := notes fd, stage := stage fd\<rparr>"

text \<open>\<^verbatim>\<open>{ ...formData, id:genId(), createdAt:new Date().toISOString(), completedAt:null }\<close>\<close>

definition newTask :: "draft \<Rightarrow> string \<Rightarrow> string \<Rightarrow> task" where
  "newTask fd newId now = \<lparr>title = title fd, priority = priority fd, category = category fd,
     due = due fd, notes = notes fd, stage = stage fd,
     task_id = newId, createdAt = now, completedAt = None\<rparr>"

definition closeForm :: "app \<Rightarrow> app" where
  "closeForm s = s\<lparr>showForm := False, formErrors := []\<rparr>"

text \<open>
  \<^verbatim>\<open>
  function saveTask() {
    const errs = validateForm(formData)
    if (Object.keys(errs).length) { setFormErrors(errs); return }
    if (editId) {
      setTasks(t => t.map(x => x.id === editId ? { ...x, ...formData } : x))
      showToast('Task updated.')
    } else {
      setTasks(t => [...t, { ...formData, id:genId(), createdAt:new Date().toISOString(), completedAt:null }])
      showToast('Task created.')
    }
    closeForm()
  }
  \<close>
  \<open>newId\<close> is what \<^verbatim>\<open>genId()\<close> returns and \<open>now\<close> what \<^verbatim>\<open>new Date().toISOString()\<close>
  returns, would the handler call them.
\<close>

definition saveTask :: "string \<Rightarrow> string \<Rightarrow> app \<Rightarrow> app" where
  "saveTask newId now s =
    (let errs = validateForm (formData s) in
     if length errs \<noteq> 0 then s\<lparr>formErrors := errs\<rparr>
     else if truthy (editId s) then
       closeForm (s\<lparr>tasks := map (\<lambda>x. if Some (task_id x) = editId s then spread x (formData s) else x)
                                 (tasks s),
                    toast := Some TaskUpdated\<rparr>)
     else
       closeForm (s\<lparr>tasks := tasks s @ [newTask (formData s) newId now],
                    toast := Some TaskCreated\<rparr>))"

text \<open>
  \<^verbatim>\<open>function deleteTask(id) { setTasks(t => t.filter(x => x.id !== id)); showToast('Task deleted.') }\<close>
\<close>

definition deleteTask :: "string \<Rightarrow> app \<Rightarrow> app" where
  "deleteTask i s = s\<lparr>tasks := filter (\<lambda>x. task_id x \<noteq> i) (tasks s), toast := Some TaskDeleted\<rparr>"

text \<open>
  \<^verbatim>\<open>
  function moveTask(id, dir) {
    setTasks(t => t.map(x => {
      if (x.id !== id) return x
      const next = COLUMNS[COLUMNS.indexOf(x.stage) + dir]
      if (!next) return x
      return { ...x, stage:next, completedAt: next === 'Completed' ? new Date().toISOString() : null }
    }))
  }
  \<close>
\<close>

definition stamp :: "string \<Rightarrow> string \<Rightarrow> string option" where
  "stamp col now = (if col = ''Completed'' then Some now else None)"

definition moveOne :: "string \<Rightarrow> int \<Rightarrow> string \<Rightarrow> task \<Rightarrow> task" where
  "moveOne i dir now x =
    (if task_id x \<noteq> i then x
     else let next = elemAt COLUMNS (indexOf COLUMNS (stage x) + dir) in
       if \<not> truthy next then x
       else x\<lparr>stage := the next, completedAt := stamp (the next) now\<rparr>)"

definition moveTask :: "string \<Rightarrow> int \<Rightarrow> string \<Rightarrow> app \<Rightarrow> app" where
  "moveTask i dir now s = s\<lparr>tasks := map (moveOne i dir now) (tasks s)\<rparr>"

text \<open>
  \<^verbatim>\<open>
  function saveNote() {
    if (noteText.length > MAX_NOTES) { showToast(`Notes exceed ${MAX_NOTES} chars.`); return }
    setTasks(t => t.map(x => x.id === activeNote ? { ...x, notes:noteText } : x))
    setActiveNote(null)
    showToast('Notes saved.')
  }
  \<close>
\<close>

definition saveNote :: "app \<Rightarrow> app" where
  "saveNote s =
    (if length (noteText s) > MAX_NOTES then s\<lparr>toast := Some NotesExceed\<rparr>
     else s\<lparr>tasks := map (\<lambda>x. if Some (task_id x) = activeNote s then x\<lparr>notes := noteText s\<rparr> else x)
                        (tasks s),
            activeNote := None, toast := Some NotesSaved\<rparr>)"

text \<open>
  \<^verbatim>\<open>
  const onDrop = (e, col) => {
    e.preventDefault()
    if (dragging) {
      const task = tasks.find(x => x.id === dragging)
      if (task && task.stage !== col) {
        setTasks(t => t.map(x => x.id === dragging
          ? { ...x, stage:col, completedAt: col === 'Completed' ? new Date().toISOString() : null }
          : x))
        showToast(`Moved to ${col}`)
      }
    }
    setDragging(null); setDragOver(null)
  }
  \<close>
\<close>

definition onDrop :: "string \<Rightarrow> string \<Rightarrow> app \<Rightarrow> app" where
  "onDrop col now s =
    (let s' =
       (if truthy (dragging s) then
          (case find (\<lambda>x. Some (task_id x) = dragging s) (tasks s) of
             None \<Rightarrow> s
           | Some t \<Rightarrow>
               if stage t \<noteq> col then
                 s\<lparr>tasks := map (\<lambda>x. if Some (task_id x) = dragging s
                                      then x\<lparr>stage := col, completedAt := stamp col now\<rparr> else x)
                                (tasks s),
                   toast := Some (MovedTo col)\<rparr>
               else s)
        else s)
     in s'\<lparr>dragging := None, dragOver := None\<rparr>)"

section \<open>The store operations as sequences of handler calls\<close>

text \<open>
  The handlers that prepare the state for the ones above:
  \<^verbatim>\<open>
  function openForm(task = null) {
    setFormData(task
      ? { title:task.title, priority:task.priority, category:task.category, due:task.due, notes:task.notes, stage:task.stage }
      : { ...DEFAULT_TASK }
    )
    setEditId(task ? task.id : null)
    setFormErrors({})
    setShowForm(true)
  }
  function openNote(task) { setActiveNote(task.id); setNoteText(task.notes || '') }
  const onDragStart = (e, id) => { setDragging(id); e.dataTransfer.effectAllowed = 'move' }
  \<close>
  The inputs of the form call \<^verbatim>\<open>setFormData(f => ({ ...f, title:e.target.value }))\<close> and
  the like, one field at a time, and the text area of the notes calls \<^verbatim>\<open>setNoteText\<close>.
\<close>

definition openForm :: "task option \<Rightarrow> app \<Rightarrow> app" where
  "openForm t s =
    s\<lparr>formData := (case t of
                     Some x \<Rightarrow> \<lparr>title = title x, priority = priority x, category = category x,
                                due = due x, notes = notes x, stage = stage x\<rparr>
                   | None \<Rightarrow> DEFAULT_TASK),
      editId := (case t of Some x \<Rightarrow> Some (task_id x) | None \<Rightarrow> None),
      formErrors := [], showForm := True\<rparr>"

definition setFormData :: "draft \<Rightarrow> app \<Rightarrow> app" where
  "setFormData d s = s\<lparr>formData := d\<rparr>"

definition openNote :: "task \<Rightarrow> app \<Rightarrow> app" where
  "openNote t s =
    s\<lparr>activeNote := Some (task_id t), noteText := (if notes t \<noteq> [] then notes t else [])\<rparr>"

definition setNoteText :: "string \<Rightarrow> app \<Rightarrow> app" where
  "setNoteText body s = s\<lparr>noteText := body\<rparr>"

definition onDragStart :: "string \<Rightarrow> app \<Rightarrow> app" where
  "onDragStart i s = s\<lparr>dragging := Some i\<rparr>"

text \<open>
  The operations of the task store, as the user performs them: a creation opens the empty
  form, fills it in and saves; an edit and a note open the form or the note of a task on
  the board, fill it in and save (there is nothing to open for an identifier that is not
  on the board); a direct stage assignment drags the task and drops it on a column. The
  strings after the draft are what \<^verbatim>\<open>genId()\<close> and the clock give, should the handler ask.
\<close>

datatype op =
    Create draft string string
  | Update string draft string string
  | MoveStage string int string
  | SetStage string string string
  | SetNotes string string
  | Delete string

fun apply_op :: "op \<Rightarrow> app \<Rightarrow> app" where
  "apply_op (Create d newId now) s = saveTask newId now (setFormData d (openForm None s))"
| "apply_op (Update i d newId now) s =
     (case find (\<lambda>x. task_id x = i) (tasks s) of
        None \<Rightarrow> s
      | Some t \<Rightarrow> saveTask newId now (setFormData d (openForm (Some t) s)))"
| "apply_op (MoveStage i dir now) s = moveTask i dir now s"
| "apply_op (SetStage i col now) s = onDrop col now (onDragStart i s)"
| "apply_op (SetNotes i body) s =
     (case find (\<lambda>x. task_id x = i) (tasks s) of
        None \<Rightarrow> s
      | Some t \<Rightarrow> saveNote (setNoteText body (openNote t s)))"
| "apply_op (Delete i) s = deleteTask i s"

fun run :: "op list \<Rightarrow> app \<Rightarrow> app" where
  "run [] s = s"
| "run (o1 # os) s = run os (apply_op o1 s)"

text \<open>A task is consistent when it has a completion time exactly in the last column.\<close>

definition consistent :: "task \<Rightarrow> bool" where
  "consistent x = ((completedAt x \<noteq> None) = (stage x = ''Completed''))"

text \<open>
  A save keeps the tasks consistent when the stage chosen in the form agrees with the
  completion time the task carries: a new task has none, an edited task keeps its own.
  An edit whose \<^verbatim>\<open>editId\<close> is the empty string takes the handler's creating branch.
\<close>

fun keeps :: "app \<Rightarrow> op \<Rightarrow> bool" where
  "keeps s (Create d newId now) = (stage d \<noteq> ''Completed'')"
| "keeps s (Update i d newId now) =
     (if i = [] then stage d \<noteq> ''Completed''
      else list_all (\<lambda>x. task_id x \<noteq> i \<or> (stage d = ''Completed'') = (stage x = ''Completed''))
             (tasks s))"
| "keeps s (MoveStage i dir now) = True"
| "keeps s (SetStage i col now) = True"
| "keeps s (SetNotes i body) = True"
| "keeps s (Delete i) = True"

fun admissible :: "app \<Rightarrow> op list \<Rightarrow> bool" where
  "admissible s [] = True"
| "admissible s (o1 # os) = (keeps s o1 \<and> admissible (apply_op o1 s) os)"

section \<open>Numbers\<close>

text \<open>
  JavaScript numbers are IEEE 754 double precision values: \<^verbatim>\<open>NaN\<close>, the two infinities and
  the finite doubles. A finite double is a rational number, and the number value of a real
  number is the nearest double, ties going to the even significand. The two zeros are one
  value here: nothing in the program tells \<^verbatim>\<open>-0\<close> from \<^verbatim>\<open>+0\<close>.
\<close>

datatype jsnum = NaN | PosInfinity | NegInfinity | Finite rat

fun bitLength :: "nat \<Rightarrow> nat" where
  "bitLength n = (if n = 0 then 0 else Suc (bitLength (n div 2)))"

definition pow2 :: "int \<Rightarrow> rat" where
  "pow2 k = (if 0 \<le> k then 2 ^ nat k else 1 / 2 ^ nat (- k))"

text \<open>The exponent \<open>e\<close> of a positive rational \<open>x\<close>: \<open>2\<^sup>e \<le> x < 2\<^sup>e\<^sup>+\<^sup>1\<close>.\<close>

definition exponent :: "rat \<Rightarrow> int" where
  "exponent x =
    (let (p, q) = quotient_of x;
         k = int (bitLength (nat p)) - int (bitLength (nat q))
     in if pow2 k \<le> x then k else k - 1)"

definition roundTiesToEven :: "rat \<Rightarrow> int" where
  "roundTiesToEven q =
    (let f = \<lfloor>q\<rfloor>; r = q - of_int f
     in if r < 1 / 2 then f else if 1 / 2 < r then f + 1 else if even f then f else f + 1)"

text \<open>
  The number value of a rational number. A normal double has 53 significant bits; below
  \<open>2\<^sup>-\<^sup>1\<^sup>0\<^sup>2\<^sup>2\<close> the doubles are the multiples of \<open>2\<^sup>-\<^sup>1\<^sup>0\<^sup>7\<^sup>4\<close>; a number that rounds to \<open>2\<^sup>1\<^sup>0\<^sup>2\<^sup>4\<close> or
  more is infinite.
\<close>

definition numberValue :: "rat \<Rightarrow> jsnum" where
  "numberValue x =
    (if x = 0 then Finite 0
     else let e = max (exponent \<bar>x\<bar>) (- 1022);
              u = pow2 (e - 52);
              r = of_int (roundTiesToEven (\<bar>x\<bar> / u)) * u
          in if pow2 1024 \<le> r then (if 0 < x then PosInfinity else NegInfinity)
             else Finite (sgn x * r))"

text \<open>\<^verbatim>\<open>ToIntegerOrInfinity\<close> of a finite number drops its fraction.\<close>

definition ToIntegerOrInfinity :: "rat \<Rightarrow> int" where
  "ToIntegerOrInfinity x = (if 0 \<le> x then \<lfloor>x\<rfloor> else \<lceil>x\<rceil>)"

text \<open>The value of a hexadecimal digit.\<close>

definition hexValue :: "char \<Rightarrow> nat option" where
  "hexValue c =
    (let n = (of_char c :: nat) in
     if 48 \<le> n \<and> n \<le> 57 then Some (n - 48)
     else if 97 \<le> n \<and> n \<le> 102 then Some (n - 87)
     else if 65 \<le> n \<and> n \<le> 70 then Some (n - 55)
     else None)"

text \<open>
  \<^verbatim>\<open>Number(string)\<close> reads the string as a \<^verbatim>\<open>StringNumericLiteral\<close> of ECMA-262: white space
  around the literal is dropped and the empty literal is \<open>0\<close>; a literal is a decimal
  literal with an optional sign, or a binary, octal or hexadecimal integer literal without
  a sign; a string that is no such literal is \<^verbatim>\<open>NaN\<close>. The result is the number value of
  the mathematical value of the literal (ECMA-262 lets an engine cut a decimal literal of
  more than 20 significant digits before rounding it; the engines round the exact value).
\<close>

definition isDigit :: "char \<Rightarrow> bool" where
  "isDigit c = (48 \<le> (of_char c :: nat) \<and> (of_char c :: nat) \<le> 57)"

definition digitsValue :: "string \<Rightarrow> nat" where
  "digitsValue s = foldl (\<lambda>a c. 10 * a + (of_char c - 48)) 0 s"

definition pow10 :: "int \<Rightarrow> rat" where
  "pow10 k = (if 0 \<le> k then 10 ^ nat k else 1 / 10 ^ nat (- k))"

text \<open>
  \<^verbatim>\<open>0b\<close>, \<^verbatim>\<open>0o\<close> or \<^verbatim>\<open>0x\<close>, in either case, and at least one digit of the radix.
\<close>

definition radixValue :: "nat \<Rightarrow> string \<Rightarrow> nat option" where
  "radixValue b ds =
    (if ds \<noteq> [] \<and> list_all (\<lambda>c. case hexValue c of None \<Rightarrow> False | Some v \<Rightarrow> v < b) ds
     then Some (foldl (\<lambda>a c. b * a + the (hexValue c)) 0 ds)
     else None)"

definition nonDecimal :: "string \<Rightarrow> nat option" where
  "nonDecimal t =
    (case t of
       z # p # ds \<Rightarrow>
         if z \<noteq> CHR ''0'' then None
         else if p = CHR ''b'' \<or> p = CHR ''B'' then radixValue 2 ds
         else if p = CHR ''o'' \<or> p = CHR ''O'' then radixValue 8 ds
         else if p = CHR ''x'' \<or> p = CHR ''X'' then radixValue 16 ds
         else None
     | _ \<Rightarrow> None)"

text \<open>
  The exponent part of a decimal literal: nothing, or \<^verbatim>\<open>e\<close> or \<^verbatim>\<open>E\<close>, an optional sign and
  at least one digit.
\<close>

definition digitsInt :: "string \<Rightarrow> int option" where
  "digitsInt ds = (if ds \<noteq> [] \<and> list_all isDigit ds then Some (int (digitsValue ds)) else None)"

definition signedInteger :: "string \<Rightarrow> int option" where
  "signedInteger s =
    (case s of
       [] \<Rightarrow> None
     | c # ds \<Rightarrow>
         if c = CHR ''+'' then digitsInt ds
         else if c = CHR ''-'' then map_option uminus (digitsInt ds)
         else digitsInt s)"

definition exponentPart :: "string \<Rightarrow> int option" where
  "exponentPart r =
    (case r of
       [] \<Rightarrow> Some 0
     | c # s \<Rightarrow> if c = CHR ''e'' \<or> c = CHR ''E'' then signedInteger s else None)"

text \<open>
  An unsigned decimal literal other than \<^verbatim>\<open>Infinity\<close>: digits, then optionally a point and
  digits, then optionally an exponent part, with a digit before or after the point. Its
  value is that of the digits, scaled by the exponent and the number of digits after the
  point.
\<close>

definition unsignedDecimal :: "string \<Rightarrow> rat option" where
  "unsignedDecimal u =
    (let ip = takeWhile isDigit u;
         r1 = dropWhile isDigit u;
         dot = (r1 \<noteq> [] \<and> hd r1 = CHR ''.'');
         fp = (if dot then takeWhile isDigit (tl r1) else []);
         r2 = (if dot then dropWhile isDigit (tl r1) else r1)
     in if ip = [] \<and> fp = [] then None
        else (case exponentPart r2 of
                None \<Rightarrow> None
              | Some ex \<Rightarrow>
                  Some (of_nat (digitsValue (ip @ fp)) * pow10 (ex - int (length fp)))))"

definition unsignedLiteral :: "bool \<Rightarrow> string \<Rightarrow> jsnum" where
  "unsignedLiteral neg u =
    (if u = ''Infinity'' then (if neg then NegInfinity else PosInfinity)
     else (case unsignedDecimal u of
             None \<Rightarrow> NaN
           | Some v \<Rightarrow> numberValue (if neg then - v else v)))"

definition decimalLiteral :: "string \<Rightarrow> jsnum" where
  "decimalLiteral t =
    (case t of
       [] \<Rightarrow> NaN
     | c # u \<Rightarrow>
         if c = CHR ''+'' then unsignedLiteral False u
         else if c = CHR ''-'' then unsignedLiteral True u
         else unsignedLiteral False t)"

definition Number :: "string \<Rightarrow> jsnum" where
  "Number s =
    (let t = trim s in
     if t = [] then Finite 0
     else (case nonDecimal t of
             Some n \<Rightarrow> numberValue (of_nat n)
           | None \<Rightarrow> decimalLiteral t))"

text \<open>\<^verbatim>\<open>m - 1\<close> on numbers.\<close>

definition minusOne :: "jsnum \<Rightarrow> jsnum" where
  "minusOne m =
    (case m of
       NaN \<Rightarrow> NaN
     | PosInfinity \<Rightarrow> PosInfinity
     | NegInfinity \<Rightarrow> NegInfinity
     | Finite a \<Rightarrow> numberValue (a - 1))"

section \<open>Dates\<close>

text \<open>
  A \<^verbatim>\<open>Date\<close> object holds a time value, the milliseconds since the start of 1 January 1970
  UTC, or \<^verbatim>\<open>NaN\<close> (an invalid date).
\<close>

datatype jsdate = InvalidDate | TimeValue int

definition msPerDay :: int where
  "msPerDay = 86400000"

definition Day :: "int \<Rightarrow> int" where
  "Day t = t div msPerDay"

text \<open>
  The time zone of the browser is the function \<^verbatim>\<open>LocalTZA(t, isUTC)\<close> of ECMA-262: the
  offset of local time from UTC in milliseconds, at the time value \<open>t\<close> when \<open>isUTC\<close> holds
  and at the local time \<open>t\<close> otherwise; at a local time that a transition skips it is the
  offset before the transition. The model takes it as a parameter.
\<close>

type_synonym zone = "int \<Rightarrow> bool \<Rightarrow> int"

definition LocalTime :: "zone \<Rightarrow> int \<Rightarrow> int" where
  "LocalTime tza t = t + tza t True"

definition UTC :: "zone \<Rightarrow> int \<Rightarrow> int" where
  "UTC tza t = t - tza t False"

text \<open>\<^verbatim>\<open>str.split('-')\<close>: the pieces between the separators; the empty string has one piece.\<close>

fun split :: "char \<Rightarrow> string \<Rightarrow> string list" where
  "split sep [] = [[]]"
| "split sep (c # cs) =
     (if c = sep then [] # split sep cs
      else (case split sep cs of [] \<Rightarrow> [[c]] | p # ps \<Rightarrow> (c # p) # ps))"

text \<open>
  \<^verbatim>\<open>new Date(y, m, d)\<close> with numbers for the year, the month counted from 0 and the day
  of the month, in local time. An argument that is not finite gives an invalid date; the
  fraction of an argument is dropped. A year from 0 to 99 means 1900 plus that year; a
  month outside 0..11 carries into the year and a day outside the month carries into the
  next months (\<^verbatim>\<open>MakeDay\<close>, which is \<^verbatim>\<open>NaN\<close>, here \<^term>\<open>None\<close>, when the first day of the
  month is no time value). The local midnight of that day is taken to UTC, and a time
  value beyond \<open>8.64e15\<close> milliseconds from the epoch is an invalid date (\<^verbatim>\<open>TimeClip\<close>).
  The sums and products of \<^verbatim>\<open>MakeDay\<close> and \<^verbatim>\<open>MakeDate\<close> are exact in double precision
  below \<open>2\<^sup>5\<^sup>3\<close>, and a result beyond that is an invalid date, rounded or not.
\<close>

definition DayFromYear :: "int \<Rightarrow> int" where
  "DayFromYear y = 365 * (y - 1970) + (y - 1969) div 4 - (y - 1901) div 100 + (y - 1601) div 400"

definition InLeapYear :: "int \<Rightarrow> bool" where
  "InLeapYear y = (y mod 4 = 0 \<and> (y mod 100 \<noteq> 0 \<or> y mod 400 = 0))"

definition monthStart :: "int \<Rightarrow> int \<Rightarrow> int" where
  "monthStart y mn =
     [0, 31, 59, 90, 120, 151, 181, 212, 243, 273, 304, 334] ! nat mn
       + (if InLeapYear y \<and> 2 \<le> mn then 1 else 0)"

definition MakeDay :: "int \<Rightarrow> int \<Rightarrow> int \<Rightarrow> int option" where
  "MakeDay yr m dt =
    (let ym = yr + m div 12; mn = m mod 12;
         first = DayFromYear ym + monthStart ym mn
     in if \<bar>first * msPerDay\<bar> > 8640000000000000 then None
        else Some (first + dt - 1))"

definition TimeClip :: "int \<Rightarrow> jsdate" where
  "TimeClip t = (if \<bar>t\<bar> > 8640000000000000 then InvalidDate else TimeValue t)"

definition newDate :: "zone \<Rightarrow> jsnum \<Rightarrow> jsnum \<Rightarrow> jsnum \<Rightarrow> jsdate" where
  "newDate tza y m d =
    (case (y, m, d) of
       (Finite yv, Finite mv, Finite dv) \<Rightarrow>
         (let yi = ToIntegerOrInfinity yv;
              yr = (if 0 \<le> yi \<and> yi \<le> 99 then 1900 + yi else yi)
          in case MakeDay yr (ToIntegerOrInfinity mv) (ToIntegerOrInfinity dv) of
               None \<Rightarrow> InvalidDate
             | Some dy \<Rightarrow> TimeClip (UTC tza (dy * msPerDay)))
     | _ \<Rightarrow> InvalidDate)"

text \<open>
  \<^verbatim>\<open>
  function parseLocalDate(str) {
    if (!str) return null
    const [y, m, d] = str.split('-').map(Number)
    return new Date(y, m - 1, d)
  }
  \<close>
  A missing piece is \<^verbatim>\<open>undefined\<close>, and \<^verbatim>\<open>undefined\<close> as an argument of \<^verbatim>\<open>new Date\<close> is
  \<^verbatim>\<open>NaN\<close>, as is \<^verbatim>\<open>undefined - 1\<close>.
\<close>

definition piece :: "jsnum list \<Rightarrow> nat \<Rightarrow> jsnum" where
  "piece ns k = (if k < length ns then ns ! k else NaN)"

definition parseLocalDate :: "zone \<Rightarrow> string option \<Rightarrow> jsdate option" where
  "parseLocalDate tza str =
    (if \<not> truthy str then None
     else let ns = map Number (split (CHR ''-'') (the str));
              y = piece ns 0; m = piece ns 1; d = piece ns 2
          in Some (newDate tza y (minusOne m) d))"

text \<open>
  \<^verbatim>\<open>
  function formatDate(str) {
    if (!str) return ''
    const d = parseLocalDate(str)
    return d ? d.toLocaleDateString() : ''
  }
  \<close>
  What \<^verbatim>\<open>toLocaleDateString\<close> prints for a valid date depends on the locale and the time
  zone of the browser: \<open>loc\<close> is that function of the time value. For an invalid date it
  prints \<^verbatim>\<open>Invalid Date\<close> in every locale.
\<close>

definition toLocaleDateString :: "(int \<Rightarrow> string) \<Rightarrow> jsdate \<Rightarrow> string" where
  "toLocaleDateString loc d = (case d of InvalidDate \<Rightarrow> ''Invalid Date'' | TimeValue t \<Rightarrow> loc t)"

definition formatDate :: "zone \<Rightarrow> (int \<Rightarrow> string) \<Rightarrow> string option \<Rightarrow> string" where
  "formatDate tza loc str =
    (if \<not> truthy str then []
     else (case parseLocalDate tza str of None \<Rightarrow> [] | Some d \<Rightarrow> toLocaleDateString loc d))"

text \<open>
  \<^verbatim>\<open>
  function isOverdue(due, stage) {
    if (!due || stage === 'Completed') return false
    const dueDate = parseLocalDate(due)
    if (!dueDate) return false
    const today = new Date(); today.setHours(0, 0, 0, 0)
    return dueDate < today
  }
  \<close>
  \<open>now\<close> is the time value of \<^verbatim>\<open>new Date()\<close>. \<^verbatim>\<open>setHours(0, 0, 0, 0)\<close> takes the time value
  to local time, keeps its day with the time of day 0, and takes that local midnight back
  to UTC. \<^verbatim>\<open><\<close> compares the time values and is false when one of them is \<^verbatim>\<open>NaN\<close>.
\<close>

definition setHours0 :: "zone \<Rightarrow> jsdate \<Rightarrow> jsdate" where
  "setHours0 tza d =
    (case d of
       InvalidDate \<Rightarrow> InvalidDate
     | TimeValue t \<Rightarrow> TimeClip (UTC tza (Day (LocalTime tza t) * msPerDay)))"

definition dateLess :: "jsdate \<Rightarrow> jsdate \<Rightarrow> bool" where
  "dateLess a b = (case (a, b) of (TimeValue s, TimeValue t) \<Rightarrow> s < t | _ \<Rightarrow> False)"

definition isOverdue :: "zone \<Rightarrow> int \<Rightarrow> string option \<Rightarrow> string \<Rightarrow> bool" where
  "isOverdue tza now dueStr stg =
    (if \<not> truthy dueStr \<or> stg = ''Completed'' then False
     else (case parseLocalDate tza dueStr of
             None \<Rightarrow> False
           | Some dueDate \<Rightarrow> dateLess dueDate (setHours0 tza (TimeValue now))))"

section \<open>The export\<close>

text \<open>
  \<^verbatim>\<open>
  function exportToExcel(filter) {
    try {
      const data = filter === 'completed' ? tasks.filter(x => x.stage === 'Completed') : tasks
      if (!data.length) { showToast('No tasks to export.'); setExportMenu(false); return }
      const rows = data.map(x => ({
        'Task Name': x.title, 'Category': x.category, 'Priority': x.priority,
        'Stage': x.stage, 'Due Date': formatDate(x.due), 'Notes': x.notes || '',
        'Created': formatDate(x.createdAt), 'Completed': formatDate(x.completedAt)
      }))
      const ws = XLSX.utils.json_to_sheet(rows)
      ws['!cols'] = Object.keys(rows[0]).map(k => ({ wch: Math.max(k.length, ...rows.map(r => String(r[k] || '').length)) + 2 }))
      const wb = XLSX.utils.book_new()
      XLSX.utils.book_append_sheet(wb, ws, 'Tasks')
      XLSX.writeFile(wb, `cybersec-tasks-${new Date().toISOString().slice(0,10)}.xlsx`)
      showToast('Export successful!')
    } catch { showToast('Export failed. Please try again.') }
    setExportMenu(false)
  }
  \<close>
  A row object is the list of its keys and values in the order of the literal. The
  spreadsheet library is outside the repository: the workbook handed to it is the result
  of the model, and \<open>xlsx\<close> tells whether the library wrote it without throwing.
\<close>

definition orEmpty :: "string option \<Rightarrow> string" where
  "orEmpty v = (if truthy v then the v else [])"

definition exportRow :: "zone \<Rightarrow> (int \<Rightarrow> string) \<Rightarrow> task \<Rightarrow> (string \<times> string) list" where
  "exportRow tza loc x =
     [(''Task Name'', title x), (''Category'', category x), (''Priority'', priority x),
      (''Stage'', stage x), (''Due Date'', formatDate tza loc (Some (due x))),
      (''Notes'', orEmpty (Some (notes x))),
      (''Created'', formatDate tza loc (Some (createdAt x))),
      (''Completed'', formatDate tza loc (completedAt x))]"

record workbook =
  fileName :: string
  sheetName :: string
  sheetRows :: "(string \<times> string) list list"
  colWidths :: "nat list"

definition wch :: "(string \<times> string) list list \<Rightarrow> string \<Rightarrow> nat" where
  "wch rows k = foldl max (length k) (map (\<lambda>r. length (orEmpty (map_of r k))) rows) + 2"

definition exportToExcel ::
    "(workbook \<Rightarrow> bool) \<Rightarrow> zone \<Rightarrow> (int \<Rightarrow> string) \<Rightarrow> string \<Rightarrow> string \<Rightarrow> app
      \<Rightarrow> app \<times> workbook option" where
  "exportToExcel xlsx tza loc nowIso filt s =
    (let dat = (if filt = ''completed'' then filter (\<lambda>x. stage x = ''Completed'') (tasks s)
                else tasks s)
     in if length dat = 0 then (s\<lparr>toast := Some NoTasksToExport, exportMenu := False\<rparr>, None)
        else
          let rows = map (exportRow tza loc) dat;
              wb = \<lparr>fileName = ''cybersec-tasks-'' @ take 10 nowIso @ ''.xlsx'',
                    sheetName = ''Tasks'', sheetRows = rows,
                    colWidths = map (wch rows) (map fst (hd rows))\<rparr>
          in if xlsx wb then (s\<lparr>toast := Some ExportSuccessful, exportMenu := False\<rparr>, Some wb)
             else (s\<lparr>toast := Some ExportFailed, exportMenu := False\<rparr>, None))"

section \<open>The progress statistic\<close>

text \<open>
  The result of an arithmetic operation on doubles is the exact result rounded to the
  nearest double, ties to the even significand. The counts of tasks are integers below
  \<open>2\<^sup>3\<^sup>2\<close> and the quotients and products taken of them lie between \<open>2\<^sup>-\<^sup>3\<^sup>2\<close> and 100, or
  are 0, so the rounding is that of the normal range: 53 significant bits, no overflow
  and no gradual underflow.
\<close>

definition double :: "rat \<Rightarrow> rat" where
  "double x =
    (if x = 0 then 0
     else let u = pow2 (exponent \<bar>x\<bar> - 52)
          in sgn x * of_int (roundTiesToEven (\<bar>x\<bar> / u)) * u)"

text \<open>\<^verbatim>\<open>Math.round\<close>: the nearest integer, a tie going up.\<close>

definition MathRound :: "rat \<Rightarrow> int" where
  "MathRound x = \<lfloor>x + 1 / 2\<rfloor>"

text \<open>
  \<^verbatim>\<open>
  const { pct } = useMemo(() => {
    const c = tasks.filter(x => x.stage === 'Completed').length
    return { completed: c, pct: tasks.length ? Math.round((c / tasks.length) * 100) : 0 }
  }, [tasks])
  \<close>
\<close>

definition pct :: "task list \<Rightarrow> int" where
  "pct ts =
    (let c = length (filter (\<lambda>x. stage x = ''Completed'') ts)
     in if length ts \<noteq> 0
        then MathRound (double (double (of_nat c / of_nat (length ts)) * 100))
        else 0)"

section \<open>Persistence\<close>

text \<open>
  The task array is stored under one key of \<^verbatim>\<open>localStorage\<close> as the text that
  \<^verbatim>\<open>JSON.stringify\<close> prints, and read back with \<^verbatim>\<open>JSON.parse\<close>. Both are functions of the
  language, not of the repository; they are modelled here after ECMA-262 on the values a
  task array is made of: \<^verbatim>\<open>null\<close>, booleans, strings, arrays and objects whose keys are
  not array indices.
\<close>

subsection \<open>JSON values and \<^verbatim>\<open>JSON.stringify\<close>\<close>

text \<open>An object is the list of its own properties in the order of their creation.\<close>

datatype json =
    JNull
  | JBool bool
  | JString string
  | JArray "json list"
  | JObject "(string \<times> json) list"

definition dq :: char where
  "dq = CHR 0x22"

definition bs :: char where
  "bs = CHR 0x5C"

text \<open>
  \<^verbatim>\<open>QuoteJSONString\<close>: backspace, tab, line feed, form feed and carriage return have
  two-character escapes, as have the double quote and the backslash; the other code units
  below 32 are printed as \<^verbatim>\<open>\u00XX\<close> with lower-case digits; every other code unit
  stands for itself.
\<close>

definition hexDigit :: "nat \<Rightarrow> char" where
  "hexDigit d = ''0123456789abcdef'' ! d"

definition quoteChar :: "char \<Rightarrow> string" where
  "quoteChar c =
    (let n = (of_char c :: nat) in
     if n = 8 then [bs, CHR ''b'']
     else if n = 9 then [bs, CHR ''t'']
     else if n = 10 then [bs, CHR ''n'']
     else if n = 12 then [bs, CHR ''f'']
     else if n = 13 then [bs, CHR ''r'']
     else if c = dq then [bs, dq]
     else if c = bs then [bs, bs]
     else if n < 32 then [bs, CHR ''u'', CHR ''0'', CHR ''0'', hexDigit (n div 16), hexDigit (n mod 16)]
     else [c])"

definition quoteJSONString :: "string \<Rightarrow> string" where
  "quoteJSONString s = dq # concat (map quoteChar s) @ [dq]"

text \<open>
  \<^verbatim>\<open>JSON.stringify(value)\<close> without a replacer or an indentation: no white space, the
  elements of an array and the properties of an object separated by commas.
\<close>

fun stringify :: "json \<Rightarrow> string"
  and stringifyElements :: "json list \<Rightarrow> string"
  and stringifyMembers :: "(string \<times> json) list \<Rightarrow> string" where
  "stringify JNull = ''null''"
| "stringify (JBool b) = (if b then ''true'' else ''false'')"
| "stringify (JString s) = quoteJSONString s"
| "stringify (JArray xs) = CHR ''['' # stringifyElements xs @ '']''"
| "stringify (JObject ms) = CHR ''{'' # stringifyMembers ms @ ''}''"
| "stringifyElements [] = []"
| "stringifyElements [x] = stringify x"
| "stringifyElements (x # y # ys) = stringify x @ CHR '','' # stringifyElements (y # ys)"
| "stringifyMembers [] = []"
| "stringifyMembers [(k, v)] = quoteJSONString k @ CHR '':'' # stringify v"
| "stringifyMembers ((k, v) # m # ms) = quoteJSONString k @ CHR '':'' # stringify v @ CHR '','' # stringifyMembers (m # ms)"

subsection \<open>\<^verbatim>\<open>JSON.parse\<close>\<close>

text \<open>
  \<^verbatim>\<open>JSON.parse\<close> returns a value or throws a \<^verbatim>\<open>SyntaxError\<close>. The outcome
  \<^term>\<open>Beyond\<close> says that the text leaves the values modelled here and the model makes no
  statement: the text holds a number, an escape \<^verbatim>\<open>\uXXXX\<close> of a code unit above 255, or an
  object key that is an array index (JavaScript lists such keys first). The outcome
  \<^term>\<open>OutOfSteps\<close> belongs to the descent below, which counts its nested calls; \<^verbatim>\<open>parse\<close>
  never ends with it.
\<close>

datatype 'a parsed = SyntaxError | Beyond | OutOfSteps | Parsed 'a

definition isJsonWs :: "char \<Rightarrow> bool" where
  "isJsonWs c = ((of_char c :: nat) \<in> {9, 10, 13, 32})"

definition skipWs :: "string \<Rightarrow> string" where
  "skipWs cs = dropWhile isJsonWs cs"

text \<open>The body of a string after its opening quote, up to the closing quote.\<close>

definition unescape :: "char \<Rightarrow> char option" where
  "unescape e =
    (if e = dq then Some dq
     else if e = bs then Some bs
     else if e = CHR ''/'' then Some (CHR ''/'')
     else if e = CHR ''b'' then Some (char_of (8 :: nat))
     else if e = CHR ''f'' then Some (char_of (12 :: nat))
     else if e = CHR ''n'' then Some (char_of (10 :: nat))
     else if e = CHR ''r'' then Some (char_of (13 :: nat))
     else if e = CHR ''t'' then Some (char_of (9 :: nat))
     else None)"

definition consChar :: "char \<Rightarrow> (string \<times> string) parsed \<Rightarrow> (string \<times> string) parsed" where
  "consChar c r =
    (case r of
       Parsed (s, rest) \<Rightarrow> Parsed (c # s, rest)
     | SyntaxError \<Rightarrow> SyntaxError
     | Beyond \<Rightarrow> Beyond
     | OutOfSteps \<Rightarrow> OutOfSteps)"

fun parseString :: "string \<Rightarrow> (string \<times> string) parsed" where
  "parseString [] = SyntaxError"
| "parseString (c # cs) =
    (if c = dq then Parsed ([], cs)
     else if c = bs then
       (case cs of
          [] \<Rightarrow> SyntaxError
        | e # r \<Rightarrow>
            if e = CHR ''u'' then
              (case r of
                 a # b # c' # d # r' \<Rightarrow>
                   (case (hexValue a, hexValue b, hexValue c', hexValue d) of
                      (Some h3, Some h2, Some h1, Some h0) \<Rightarrow>
                        (if h3 = 0 \<and> h2 = 0 then consChar (char_of (16 * h1 + h0)) (parseString r')
                         else Beyond)
                    | _ \<Rightarrow> SyntaxError)
               | _ \<Rightarrow> SyntaxError)
            else (case unescape e of
                    None \<Rightarrow> SyntaxError
                  | Some ch \<Rightarrow> consChar ch (parseString r)))
     else if (of_char c :: nat) < 32 then SyntaxError
     else consChar c (parseString cs))"
definition andThen :: "'a parsed \<Rightarrow> ('a \<Rightarrow> 'b parsed) \<Rightarrow> 'b parsed" where
  "andThen r f =
    (case r of
       Parsed x \<Rightarrow> f x
     | SyntaxError \<Rightarrow> SyntaxError
     | Beyond \<Rightarrow> Beyond
     | OutOfSteps \<Rightarrow> OutOfSteps)"

definition expectWord :: "string \<Rightarrow> json \<Rightarrow> string \<Rightarrow> (json \<times> string) parsed" where
  "expectWord w v r = (if take (length w) r = w then Parsed (v, drop (length w) r) else SyntaxError)"

text \<open>
  The properties of a parsed object are defined one after the other: a key that comes
  again replaces the value and keeps the place of the first.
\<close>

definition isIndexKey :: "string \<Rightarrow> bool" where
  "isIndexKey k = (k \<noteq> [] \<and> list_all isDigit k \<and> (k = ''0'' \<or> hd k \<noteq> CHR ''0''))"

definition defineAll :: "(string \<times> json) list \<Rightarrow> (string \<times> json) list" where
  "defineAll ms = foldl (\<lambda>acc (k, v). AList.update k v acc) [] ms"

definition makeObject :: "(string \<times> json) list \<times> string \<Rightarrow> (json \<times> string) parsed" where
  "makeObject p = (case p of (ms, r) \<Rightarrow>
     if list_ex isIndexKey (map fst ms) then Beyond else Parsed (JObject (defineAll ms), r))"

text \<open>
  The descent over values, over the elements of an array after its first bracket, and over
  the members of an object after its first brace. The first argument bounds the number of
  nested calls; \<^verbatim>\<open>parse\<close> gives it twice the length of the text and one more, which is
  always enough.
\<close>

fun parseValue :: "nat \<Rightarrow> string \<Rightarrow> (json \<times> string) parsed"
  and parseElements :: "nat \<Rightarrow> string \<Rightarrow> (json list \<times> string) parsed"
  and parseMembers :: "nat \<Rightarrow> string \<Rightarrow> ((string \<times> json) list \<times> string) parsed" where
  "parseValue 0 cs = OutOfSteps"
| "parseValue (Suc n) cs =
    (case skipWs cs of
       [] \<Rightarrow> SyntaxError
     | c # r \<Rightarrow>
         if c = CHR ''{'' then
           (case skipWs r of
              [] \<Rightarrow> SyntaxError
            | c' # r' \<Rightarrow>
                if c' = CHR ''}'' then Parsed (JObject [], r')
                else andThen (parseMembers n (c' # r')) makeObject)
         else if c = CHR ''['' then
           (case skipWs r of
              [] \<Rightarrow> SyntaxError
            | c' # r' \<Rightarrow>
                if c' = CHR '']'' then Parsed (JArray [], r')
                else andThen (parseElements n (c' # r')) (\<lambda>(xs, r''). Parsed (JArray xs, r'')))
         else if c = dq then andThen (parseString r) (\<lambda>(s, r'). Parsed (JString s, r'))
         else if c = CHR ''t'' then expectWord ''rue'' (JBool True) r
         else if c = CHR ''f'' then expectWord ''alse'' (JBool False) r
         else if c = CHR ''n'' then expectWord ''ull'' JNull r
         else if c = CHR ''-'' \<or> isDigit c then Beyond
         else SyntaxError)"
| "parseElements 0 cs = OutOfSteps"
| "parseElements (Suc n) cs =
    andThen (parseValue n cs) (\<lambda>(v, r).
      case skipWs r of
        [] \<Rightarrow> SyntaxError
      | c # r' \<Rightarrow>
          if c = CHR '','' then andThen (parseElements n r') (\<lambda>(vs, r''). Parsed (v # vs, r''))
          else if c = CHR '']'' then Parsed ([v], r')
          else SyntaxError)"
| "parseMembers 0 cs = OutOfSteps"
| "parseMembers (Suc n) cs =
    (case skipWs cs of
       [] \<Rightarrow> SyntaxError
     | c # r \<Rightarrow>
         if c \<noteq> dq then SyntaxError
         else andThen (parseString r) (\<lambda>(k, r1).
           case skipWs r1 of
             [] \<Rightarrow> SyntaxError
           | c1 # r2 \<Rightarrow>
               if c1 \<noteq> CHR '':'' then SyntaxError
               else andThen (parseValue n r2) (\<lambda>(v, r3).
                 case skipWs r3 of
                   [] \<Rightarrow> SyntaxError
                 | c3 # r4 \<Rightarrow>
                     if c3 = CHR '','' then andThen (parseMembers n r4) (\<lambda>(ms, r5). Parsed ((k, v) # ms, r5))
                     else if c3 = CHR ''}'' then Parsed ([(k, v)], r4)
                     else SyntaxError)))"

definition parse :: "string \<Rightarrow> json parsed" where
  "parse s =
    (case parseValue (2 * length s + 1) s of
       Parsed (j, r) \<Rightarrow> if skipWs r = [] then Parsed j else SyntaxError
     | SyntaxError \<Rightarrow> SyntaxError
     | Beyond \<Rightarrow> Beyond
     | OutOfSteps \<Rightarrow> OutOfSteps)"

text \<open>The values that \<^verbatim>\<open>JSON.parse\<close> can return here: distinct keys, none an array index.\<close>

fun plain :: "json \<Rightarrow> bool"
  and plainElements :: "json list \<Rightarrow> bool"
  and plainMembers :: "(string \<times> json) list \<Rightarrow> bool" where
  "plain JNull = True"
| "plain (JBool b) = True"
| "plain (JString s) = True"
| "plain (JArray xs) = plainElements xs"
| "plain (JObject ms) = (distinct (map fst ms) \<and> \<not> list_ex isIndexKey (map fst ms) \<and> plainMembers ms)"
| "plainElements [] = True"
| "plainElements (x # xs) = (plain x \<and> plainElements xs)"
| "plainMembers [] = True"
| "plainMembers ((k, v) # ms) = (plain v \<and> plainMembers ms)"

subsection \<open>The task array as a JSON value\<close>

text \<open>
  A task object has its properties in the order in which \<^verbatim>\<open>saveTask\<close> creates them: the six
  of the form data, in the order of \<^verbatim>\<open>DEFAULT_TASK\<close> and of the literal in \<^verbatim>\<open>openForm\<close>,
  then \<^verbatim>\<open>id\<close>, \<^verbatim>\<open>createdAt\<close> and \<^verbatim>\<open>completedAt\<close>. Every handler copies a task with a
  spread and assigns to properties that are there, which keeps the order.
\<close>

definition taskKeys :: "string list" where
  "taskKeys = [''title'', ''priority'', ''category'', ''due'', ''notes'', ''stage'',
     ''id'', ''createdAt'', ''completedAt'']"

definition jsonOfTask :: "task \<Rightarrow> json" where
  "jsonOfTask x = JObject
     [(''title'', JString (title x)), (''priority'', JString (priority x)),
      (''category'', JString (category x)), (''due'', JString (due x)),
      (''notes'', JString (notes x)), (''stage'', JString (stage x)),
      (''id'', JString (task_id x)), (''createdAt'', JString (createdAt x)),
      (''completedAt'', (case completedAt x of None \<Rightarrow> JNull | Some t \<Rightarrow> JString t))]"

definition jsonOfTasks :: "task list \<Rightarrow> json" where
  "jsonOfTasks ts = JArray (map jsonOfTask ts)"

text \<open>
  The state of the model holds typed tasks, so a parsed value can enter it only when it is
  an array of task objects; the reading is \<^term>\<open>None\<close> for every other value.
\<close>

definition stringOf :: "json \<Rightarrow> string option" where
  "stringOf j = (case j of JString s \<Rightarrow> Some s | _ \<Rightarrow> None)"

definition nullableStringOf :: "json \<Rightarrow> string option option" where
  "nullableStringOf j = (case j of JNull \<Rightarrow> Some None | JString s \<Rightarrow> Some (Some s) | _ \<Rightarrow> None)"

definition taskOfJson :: "json \<Rightarrow> task option" where
  "taskOfJson j =
    (case j of
       JObject ms \<Rightarrow>
         if map fst ms = taskKeys then
           (case (those (map stringOf (take 8 (map snd ms))), nullableStringOf (map snd ms ! 8)) of
              (Some [t, p, c, d, n, s, i, cr], Some co) \<Rightarrow>
                Some \<lparr>title = t, priority = p, category = c, due = d, notes = n, stage = s,
                      task_id = i, createdAt = cr, completedAt = co\<rparr>
            | _ \<Rightarrow> None)
         else None
     | _ \<Rightarrow> None)"

definition tasksOfJson :: "json \<Rightarrow> task list option" where
  "tasksOfJson j = (case j of JArray xs \<Rightarrow> those (map taskOfJson xs) | _ \<Rightarrow> None)"

subsection \<open>The two effects\<close>

text \<open>
  \<^verbatim>\<open>
  useEffect(() => {
    try {
      const s = localStorage.getItem('cybertasks')
      if (s) setTasks(JSON.parse(s))
    } catch {
      showToast('Could not load saved tasks.')
    }
    setLoaded(true)
  }, [showToast])
  \<close>
  \<^verbatim>\<open>localStorage\<close> is a map from keys to texts. The result is \<^term>\<open>None\<close> when the stored
  text is beyond the model of \<^verbatim>\<open>JSON.parse\<close> or is not an array of task objects.
\<close>

definition loadTasks :: "(string \<rightharpoonup> string) \<Rightarrow> app \<Rightarrow> app option" where
  "loadTasks store a =
    (let s = store ''cybertasks'' in
     if truthy s then
       (case parse (the s) of
          SyntaxError \<Rightarrow> Some (a\<lparr>toast := Some CouldNotLoad, loaded := True\<rparr>)
        | Beyond \<Rightarrow> None
        | OutOfSteps \<Rightarrow> None
        | Parsed j \<Rightarrow>
            (case tasksOfJson j of
               None \<Rightarrow> None
             | Some ts \<Rightarrow> Some (a\<lparr>tasks := ts, loaded := True\<rparr>)))
     else Some (a\<lparr>loaded := True\<rparr>))"

text \<open>
  \<^verbatim>\<open>
  useEffect(() => {
    if (!loaded) return
    try { localStorage.setItem('cybertasks', JSON.stringify(tasks)) }
    catch { showToast('Could not save. Storage may be full.') }
  }, [tasks, loaded, showToast])
  \<close>
  \<^verbatim>\<open>setItem\<close> throws when the store does not take the text: \<open>accepts\<close> tells whether it
  does.
\<close>

definition persistTasks ::
    "(string \<Rightarrow> bool) \<Rightarrow> app \<Rightarrow> (string \<rightharpoonup> string) \<Rightarrow> app \<times> (string \<rightharpoonup> string)" where
  "persistTasks accepts a store =
    (if \<not> loaded a then (a, store)
     else let text = stringify (jsonOfTasks (tasks a)) in
       if accepts text then (a, store(''cybertasks'' \<mapsto> text))
       else (a\<lparr>toast := Some CouldNotSave\<rparr>, store))"

section \<open>Example values\<close>

definition ex_draft :: draft where
  "ex_draft = \<lparr>title = ''Scan perimeter'', priority = ''High'', category = ''Pen Testing'',
     due = ''2020-01-01'', notes = ''nmap first'', stage = ''Backlog''\<rparr>"

definition ex_done_draft :: draft where
  "ex_done_draft = ex_draft\<lparr>stage := ''Completed''\<rparr>"

definition ex_A :: task where
  "ex_A = \<lparr>title = ''Audit logs'', priority = ''Medium'', category = ''Compliance'',
     due = ''2020-01-01'', notes = [], stage = ''Backlog'',
     task_id = ''lq1a'', createdAt = ''2024-01-15T10:30:00.000Z'', completedAt = None\<rparr>"

definition ex_B :: task where
  "ex_B = \<lparr>title = ''Patch VPN'', priority = ''Critical'', category = ''Internal'',
     due = ''2020-01-01'', notes = ''done'', stage = ''Completed'',
     task_id = ''lq2b'', createdAt = ''2024-01-16T08:00:00.000Z'',
     completedAt = Some ''2024-01-17T09:15:00.000Z''\<rparr>"

definition ex_board :: app where
  "ex_board = initial\<lparr>tasks := [ex_A, ex_B], loaded := True\<rparr>"

definition ex_now :: string where
  "ex_now = ''2024-02-01T12:00:00.000Z''"

definition ex_ops :: "op list" where
  "ex_ops = [Create ex_draft ''k1'' ex_now, Create ex_draft ''k2'' ex_now,
     MoveStage ''k1'' 1 ex_now, SetStage ''k2'' ''Completed'' ex_now,
     Update ''k2'' ex_done_draft ''k3'' ex_now, SetNotes ''k1'' ''seen'',
     MoveStage ''k2'' (- 1) ex_now, Delete ''k1'']"

text \<open>
  Two time zones: one an hour east of UTC the whole year, and Pacific/Apia around the end
  of 2011, which went from ten hours west of UTC to fourteen hours east of it at the end
  of 29 December 2011 and had no 30 December.
\<close>

definition ex_zone :: zone where
  "ex_zone = (\<lambda>t isUTC. 3600000)"

definition ex_apia :: zone where
  "ex_apia = (\<lambda>t isUTC. if t < (if isUTC then 1325239200000 else 1325289600000)
                         then - 36000000 else 50400000)"

lemmas ex_defs = ex_draft_def ex_done_draft_def ex_A_def ex_B_def ex_board_def ex_now_def initial_def
  DEFAULT_TASK_def

section \<open>Properties of validation\<close>

lemma truthy_Some [simp]: "truthy (Some x) = (x \<noteq> [])"
  by (simp add: truthy_def)

lemma truthy_None [simp]: "truthy None = False"
  by (simp add: truthy_def)

lemma validateForm_empty_iff:
  "validateForm d = [] \<longleftrightarrow>
     trim (title d) \<noteq> [] \<and> length (title d) \<le> 100 \<and> length (notes d) \<le> 2000"
  by (simp add: validateForm_def Let_def MAX_TITLE_def MAX_NOTES_def)

lemma validateForm_title:
  "map_of (validateForm d) ''title'' =
     (if 100 < length (title d) then Some ''Max 100 characters.''
      else if trim (title d) = [] then Some ''Title is required.'' else None)"
  by (simp add: validateForm_def Let_def MAX_TITLE_def MAX_NOTES_def digit_def)

lemma validateForm_notes:
  "map_of (validateForm d) ''notes'' =
     (if 2000 < length (notes d) then Some ''Max 2000 characters.'' else None)"
  by (simp add: validateForm_def Let_def MAX_TITLE_def MAX_NOTES_def digit_def)

lemma validateForm_keys: "fst ` set (validateForm d) \<subseteq> {''title'', ''notes''}"
  by (auto simp add: validateForm_def Let_def split: if_splits)

lemma saveTask_formData: "formData (saveTask newId now s) = formData s"
  by (simp add: saveTask_def Let_def closeForm_def)

text \<open>
  Claim C5. \<^verbatim>\<open>validateForm\<close> returns the empty object exactly when the trimmed title is not
  empty, the title has at most 100 characters and the notes have at most 2000. Under the
  key \<^verbatim>\<open>title\<close> it reports \<^verbatim>\<open>Max 100 characters.\<close> for a title longer than 100 (also when
  the title is blank: the later assignment wins), and \<^verbatim>\<open>Title is required.\<close> for a
  shorter title that is blank after trimming; under \<^verbatim>\<open>notes\<close> it reports
  \<^verbatim>\<open>Max 2000 characters.\<close> for notes longer than 2000; it has no other key. The function
  only reads its argument, and the handler that calls it leaves \<^verbatim>\<open>formData\<close> as it was.
\<close>

theorem validateForm_rules:
  "(validateForm d = [] \<longleftrightarrow>
      trim (title d) \<noteq> [] \<and> length (title d) \<le> 100 \<and> length (notes d) \<le> 2000) \<and>
   map_of (validateForm d) ''title'' =
     (if 100 < length (title d) then Some ''Max 100 characters.''
      else if trim (title d) = [] then Some ''Title is required.'' else None) \<and>
   map_of (validateForm d) ''notes'' =
     (if 2000 < length (notes d) then Some ''Max 2000 characters.'' else None) \<and>
   fst ` set (validateForm d) \<subseteq> {''title'', ''notes''} \<and>
   formData (saveTask newId now s) = formData s"
  using validateForm_empty_iff [of d] validateForm_title [of d] validateForm_notes [of d]
    validateForm_keys [of d] saveTask_formData [of newId now s]
  by blast

text \<open>The three drafts of the specification's test list, and a blank title of 101 spaces.\<close>

lemma validateForm_examples:
  "validateForm (ex_draft\<lparr>title := []\<rparr>) = [(''title'', ''Title is required.'')]"
  "validateForm (ex_draft\<lparr>title := replicate 101 (CHR ''x'')\<rparr>) = [(''title'', ''Max 100 characters.'')]"
  "validateForm (ex_draft\<lparr>title := ''ok'', notes := replicate 2001 (CHR ''y'')\<rparr>)
     = [(''notes'', ''Max 2000 characters.'')]"
  "validateForm (ex_draft\<lparr>title := replicate 101 (CHR '' '')\<rparr>) = [(''title'', ''Max 100 characters.'')]"
  by (simp_all add: validateForm_def Let_def MAX_TITLE_def MAX_NOTES_def digit_def trim_def
      isWhiteSpace_def ex_defs)

section \<open>Properties of the stage moves\<close>

lemma moveOne_other: "task_id x \<noteq> i \<Longrightarrow> moveOne i dir now x = x"
  by (simp add: moveOne_def)

lemma moveOne_first: "stage x = ''Backlog'' \<Longrightarrow> moveOne i (- 1) now x = x"
  by (simp add: moveOne_def indexOf_def elemAt_def COLUMNS_def)

lemma moveOne_last: "stage x = ''Completed'' \<Longrightarrow> moveOne i 1 now x = x"
  by (simp add: moveOne_def indexOf_def elemAt_def COLUMNS_def)

text \<open>
  Claim C2. \<^verbatim>\<open>moveTask\<close> with direction \<open>-1\<close> on a task in the first column
  (\<^verbatim>\<open>Backlog\<close>), and with direction \<open>+1\<close> on a task in the last column (\<^verbatim>\<open>Completed\<close>),
  returns the state it was given: the task array is the same, and no message and no
  form error is set.
\<close>

theorem moveTask_past_the_ends:
  "((\<forall>x \<in> set (tasks s). task_id x = i \<longrightarrow> stage x = ''Backlog'') \<longrightarrow>
      moveTask i (- 1) now s = s) \<and>
   ((\<forall>x \<in> set (tasks s). task_id x = i \<longrightarrow> stage x = ''Completed'') \<longrightarrow>
      moveTask i 1 now s = s)"
proof -
  have "map (moveOne i (- 1) now) (tasks s) = tasks s"
    if "\<forall>x \<in> set (tasks s). task_id x = i \<longrightarrow> stage x = ''Backlog''"
    using that by (intro map_idI) (metis moveOne_other moveOne_first)
  moreover have "map (moveOne i 1 now) (tasks s) = tasks s"
    if "\<forall>x \<in> set (tasks s). task_id x = i \<longrightarrow> stage x = ''Completed''"
    using that by (intro map_idI) (metis moveOne_other moveOne_last)
  ultimately show ?thesis
    by (simp add: moveTask_def)
qed

theorem moveTask_past_the_ends_witness:
  "list_all (\<lambda>x. task_id x \<noteq> ''lq1a'' \<or> stage x = ''Backlog'') (tasks ex_board) \<and>
   moveTask ''lq1a'' (- 1) ex_now ex_board = ex_board \<and>
   list_all (\<lambda>x. task_id x \<noteq> ''lq2b'' \<or> stage x = ''Completed'') (tasks ex_board) \<and>
   moveTask ''lq2b'' 1 ex_now ex_board = ex_board"
proof -
  have a: "\<forall>x \<in> set (tasks ex_board). task_id x = ''lq1a'' \<longrightarrow> stage x = ''Backlog''"
    by (simp add: ex_defs)
  have b: "\<forall>x \<in> set (tasks ex_board). task_id x = ''lq2b'' \<longrightarrow> stage x = ''Completed''"
    by (simp add: ex_defs)
  from a b moveTask_past_the_ends [of ex_board "''lq1a''" ex_now]
    moveTask_past_the_ends [of ex_board "''lq2b''" ex_now]
  show ?thesis by (simp add: ex_defs)
qed

lemma COLUMNS_nth: "j < 4 \<Longrightarrow> indexOf COLUMNS (COLUMNS ! j) = int j"
  by (auto simp add: indexOf_def COLUMNS_def less_Suc_eq numeral_eq_Suc)

lemma elemAt_COLUMNS: "0 \<le> j \<Longrightarrow> j < 4 \<Longrightarrow> elemAt COLUMNS j = Some (COLUMNS ! nat j)"
  by (simp add: elemAt_def COLUMNS_def)

lemma COLUMNS_nonempty: "j < 4 \<Longrightarrow> COLUMNS ! j \<noteq> []"
  by (auto simp add: COLUMNS_def less_Suc_eq numeral_eq_Suc)

lemma moveOne_inbounds:
  assumes "task_id x = i" and "j < 4" and "stage x = COLUMNS ! j"
    and "0 \<le> int j + dir" and "int j + dir < 4"
  shows "moveOne i dir now x =
     x\<lparr>stage := COLUMNS ! nat (int j + dir),
       completedAt := (if COLUMNS ! nat (int j + dir) = ''Completed'' then Some now else None)\<rparr>"
proof -
  have "nat (int j + dir) < 4" using assms by linarith
  then have "COLUMNS ! nat (int j + dir) \<noteq> []" by (rule COLUMNS_nonempty)
  then show ?thesis
    using assms by (simp add: moveOne_def COLUMNS_nth elemAt_COLUMNS stamp_def)
qed

lemma onDrop_same:
  "find (\<lambda>x. Some (task_id x) = dragging s) (tasks s) = Some t \<Longrightarrow> stage t = col \<Longrightarrow>
   onDrop col now s = s\<lparr>dragging := None, dragOver := None\<rparr>"
  by (simp add: onDrop_def)

lemma onDrop_other:
  "dragging s = Some i \<Longrightarrow> i \<noteq> [] \<Longrightarrow>
   find (\<lambda>x. Some (task_id x) = dragging s) (tasks s) = Some t \<Longrightarrow> stage t \<noteq> col \<Longrightarrow>
   tasks (onDrop col now s) =
     map (\<lambda>x. if task_id x = i
             then x\<lparr>stage := col, completedAt := (if col = ''Completed'' then Some now else None)\<rparr>
             else x) (tasks s)"
  by (simp add: onDrop_def stamp_def)

text \<open>
  Claim C4. The stage moves stamp the completion time. \<^verbatim>\<open>moveTask\<close>, on the task with the
  given id that stands in column \<open>j\<close> of the four, with \<open>j + dir\<close> again one of the four
  columns, puts the task in column \<open>j + dir\<close> and sets \<^verbatim>\<open>completedAt\<close> to the current time
  when that column is \<^verbatim>\<open>Completed\<close>, and to \<^verbatim>\<open>null\<close> otherwise. \<^verbatim>\<open>onDrop\<close> of a dragged
  task on a column other than its own does the same with the column of the drop, and
  \<^verbatim>\<open>onDrop\<close> on the task's own column changes nothing but the end of the drag.
\<close>

theorem stage_moves_stamp_completedAt:
  "(k < length (tasks s) \<and> task_id (tasks s ! k) = i \<and> j < 4 \<and> stage (tasks s ! k) = COLUMNS ! j \<and>
      0 \<le> int j + dir \<and> int j + dir < 4 \<longrightarrow>
      tasks (moveTask i dir now s) ! k =
        (tasks s ! k)\<lparr>stage := COLUMNS ! nat (int j + dir),
          completedAt := (if COLUMNS ! nat (int j + dir) = ''Completed'' then Some now else None)\<rparr>) \<and>
   (dragging s = Some i \<and> i \<noteq> [] \<and> find (\<lambda>x. task_id x = i) (tasks s) = Some t \<and> stage t \<noteq> col \<longrightarrow>
      tasks (onDrop col now s) =
        map (\<lambda>x. if task_id x = i
                then x\<lparr>stage := col, completedAt := (if col = ''Completed'' then Some now else None)\<rparr>
                else x) (tasks s)) \<and>
   (dragging s = Some i \<and> find (\<lambda>x. task_id x = i) (tasks s) = Some t \<and> stage t = col \<longrightarrow>
      onDrop col now s = s\<lparr>dragging := None, dragOver := None\<rparr>)"
  by (auto simp add: moveTask_def moveOne_inbounds onDrop_same onDrop_other)

theorem stage_moves_stamp_completedAt_witness:
  "tasks (moveTask ''lq2b'' (- 1) ex_now ex_board) ! 1 = ex_B\<lparr>stage := ''Review/QA'', completedAt := None\<rparr> \<and>
   tasks (moveTask ''lq2b'' 1 ex_now (ex_board\<lparr>tasks := [ex_A, ex_B\<lparr>stage := ''Review/QA'', completedAt := None\<rparr>]\<rparr>)) ! 1
     = ex_B\<lparr>stage := ''Completed'', completedAt := Some ex_now\<rparr> \<and>
   tasks (onDrop ''Completed'' ex_now (ex_board\<lparr>dragging := Some ''lq1a''\<rparr>))
     = [ex_A\<lparr>stage := ''Completed'', completedAt := Some ex_now\<rparr>, ex_B] \<and>
   tasks (onDrop ''In Progress'' ex_now (ex_board\<lparr>dragging := Some ''lq2b''\<rparr>))
     = [ex_A, ex_B\<lparr>stage := ''In Progress'', completedAt := None\<rparr>] \<and>
   onDrop ''Backlog'' ex_now (ex_board\<lparr>dragging := Some ''lq1a''\<rparr>) = ex_board"
proof -
  have c: "COLUMNS ! 3 = ''Completed''" "COLUMNS ! 2 = ''Review/QA''"
    by (simp_all add: COLUMNS_def)
  have f: "find (\<lambda>x. task_id x = ''lq1a'') (tasks ex_board) = Some ex_A"
    "find (\<lambda>x. task_id x = ''lq2b'') (tasks ex_board) = Some ex_B"
    by (simp_all add: ex_defs)
  from c f
    stage_moves_stamp_completedAt [where k = 1 and s = ex_board and i = "''lq2b''" and j = 3
      and dir = "- 1" and now = ex_now]
    stage_moves_stamp_completedAt [where k = 1
      and s = "ex_board\<lparr>tasks := [ex_A, ex_B\<lparr>stage := ''Review/QA'', completedAt := None\<rparr>]\<rparr>"
      and i = "''lq2b''" and j = 2 and dir = 1 and now = ex_now]
    stage_moves_stamp_completedAt [where s = "ex_board\<lparr>dragging := Some ''lq1a''\<rparr>"
      and i = "''lq1a''" and t = ex_A and col = "''Completed''" and now = ex_now]
    stage_moves_stamp_completedAt [where s = "ex_board\<lparr>dragging := Some ''lq2b''\<rparr>"
      and i = "''lq2b''" and t = ex_B and col = "''In Progress''" and now = ex_now]
    stage_moves_stamp_completedAt [where s = "ex_board\<lparr>dragging := Some ''lq1a''\<rparr>"
      and i = "''lq1a''" and t = ex_A and col = "''Backlog''" and now = ex_now]
  show ?thesis by (simp add: ex_defs)
qed

section \<open>Properties of the edit\<close>

lemma saveTask_edit:
  "editId s = Some i \<Longrightarrow> i \<noteq> [] \<Longrightarrow> validateForm (formData s) = [] \<Longrightarrow>
   tasks (saveTask newId now s) =
     map (\<lambda>x. if task_id x = i then spread x (formData s) else x) (tasks s)"
  by (simp add: saveTask_def Let_def closeForm_def)

text \<open>
  Claim C3. When the form was opened on the task with identifier \<open>i\<close> (an identifier is a
  non-empty string: \<^verbatim>\<open>saveTask\<close> tests \<^verbatim>\<open>if (editId)\<close>) and \<^verbatim>\<open>validateForm\<close> accepts the
  form data, \<^verbatim>\<open>saveTask\<close> keeps the length and order of the task array, gives every task
  with that identifier the title, priority, category, due date, notes and stage of the
  form, keeps its \<^verbatim>\<open>id\<close>, \<^verbatim>\<open>createdAt\<close> and \<^verbatim>\<open>completedAt\<close>, and leaves every other
  task as it was.
\<close>

theorem saveTask_update_frame:
  assumes "editId s = Some i" and "i \<noteq> []" and "validateForm (formData s) = []"
  shows "length (tasks (saveTask newId now s)) = length (tasks s) \<and>
    (\<forall>k < length (tasks s).
       if task_id (tasks s ! k) = i
       then title (tasks (saveTask newId now s) ! k) = title (formData s) \<and>
            priority (tasks (saveTask newId now s) ! k) = priority (formData s) \<and>
            category (tasks (saveTask newId now s) ! k) = category (formData s) \<and>
            due (tasks (saveTask newId now s) ! k) = due (formData s) \<and>
            notes (tasks (saveTask newId now s) ! k) = notes (formData s) \<and>
            stage (tasks (saveTask newId now s) ! k) = stage (formData s) \<and>
            task_id (tasks (saveTask newId now s) ! k) = task_id (tasks s ! k) \<and>
            createdAt (tasks (saveTask newId now s) ! k) = createdAt (tasks s ! k) \<and>
            completedAt (tasks (saveTask newId now s) ! k) = completedAt (tasks s ! k)
       else tasks (saveTask newId now s) ! k = tasks s ! k)"
  by (simp add: saveTask_edit [OF assms] spread_def)

theorem saveTask_update_frame_witness:
  "editId (ex_board\<lparr>formData := ex_draft, editId := Some ''lq2b''\<rparr>) = Some ''lq2b'' \<and>
   validateForm (formData (ex_board\<lparr>formData := ex_draft, editId := Some ''lq2b''\<rparr>)) = [] \<and>
   length (tasks (saveTask ''zz9'' ex_now (ex_board\<lparr>formData := ex_draft, editId := Some ''lq2b''\<rparr>))) = 2 \<and>
   tasks (saveTask ''zz9'' ex_now (ex_board\<lparr>formData := ex_draft, editId := Some ''lq2b''\<rparr>)) ! 0 = ex_A \<and>
   title (tasks (saveTask ''zz9'' ex_now (ex_board\<lparr>formData := ex_draft, editId := Some ''lq2b''\<rparr>)) ! 1)
     = ''Scan perimeter'' \<and>
   stage (tasks (saveTask ''zz9'' ex_now (ex_board\<lparr>formData := ex_draft, editId := Some ''lq2b''\<rparr>)) ! 1)
     = ''Backlog'' \<and>
   task_id (tasks (saveTask ''zz9'' ex_now (ex_board\<lparr>formData := ex_draft, editId := Some ''lq2b''\<rparr>)) ! 1)
     = ''lq2b'' \<and>
   completedAt (tasks (saveTask ''zz9'' ex_now (ex_board\<lparr>formData := ex_draft, editId := Some ''lq2b''\<rparr>)) ! 1)
     = Some ''2024-01-17T09:15:00.000Z''"
proof -
  let ?s = "ex_board\<lparr>formData := ex_draft, editId := Some ''lq2b''\<rparr>"
  have e: "editId ?s = Some ''lq2b''" and n: "''lq2b'' \<noteq> []"
    by simp_all
  have v: "validateForm (formData ?s) = []"
    by (simp add: validateForm_empty_iff ex_defs trim_def isWhiteSpace_def)
  have l: "tasks ?s = [ex_A, ex_B]" and f: "formData ?s = ex_draft"
    by (simp_all add: ex_defs)
  note th = saveTask_update_frame [OF e n v, of "''zz9''" ex_now, unfolded l f]
  from th have len: "length (tasks (saveTask ''zz9'' ex_now ?s)) = 2"
    by simp
  from th [THEN conjunct2, rule_format, of 0]
  have k0: "tasks (saveTask ''zz9'' ex_now ?s) ! 0 = ex_A"
    by (simp add: ex_A_def)
  from th [THEN conjunct2, rule_format, of 1]
  have k1: "title (tasks (saveTask ''zz9'' ex_now ?s) ! 1) = ''Scan perimeter''"
    "stage (tasks (saveTask ''zz9'' ex_now ?s) ! 1) = ''Backlog''"
    "task_id (tasks (saveTask ''zz9'' ex_now ?s) ! 1) = ''lq2b''"
    "completedAt (tasks (saveTask ''zz9'' ex_now ?s) ! 1) = Some ''2024-01-17T09:15:00.000Z''"
    by (simp_all add: ex_B_def ex_draft_def)
  from e v len k0 k1 show ?thesis
    by blast
qed

text \<open>
  Claim C10. When no task of the array has the identifier \<open>i\<close>, the edit of \<open>i\<close> with a
  form that \<^verbatim>\<open>validateForm\<close> accepts, the move of \<open>i\<close> in either direction and the saving
  of a note of at most 2000 characters on \<open>i\<close> all return the task array they were given.
\<close>

theorem absent_id_frame:
  assumes "\<forall>x \<in> set (tasks s). task_id x \<noteq> i"
  shows "(editId s = Some i \<and> i \<noteq> [] \<and> validateForm (formData s) = [] \<longrightarrow>
            tasks (saveTask newId now s) = tasks s) \<and>
         tasks (moveTask i dir now s) = tasks s \<and>
         (activeNote s = Some i \<and> length (noteText s) \<le> MAX_NOTES \<longrightarrow>
            tasks (saveNote s) = tasks s)"
proof -
  have "map (\<lambda>x. if task_id x = i then f x else x) (tasks s) = tasks s" for f
    using assms by (intro map_idI) simp
  moreover have "map (moveOne i dir now) (tasks s) = tasks s"
    using assms by (intro map_idI) (simp add: moveOne_other)
  ultimately show ?thesis
    by (simp add: saveTask_edit moveTask_def saveNote_def)
qed

theorem absent_id_frame_witness:
  "list_all (\<lambda>x. task_id x \<noteq> ''nope'') (tasks ex_board) \<and>
   validateForm ex_draft = [] \<and>
   tasks (saveTask ''zz9'' ex_now (ex_board\<lparr>formData := ex_draft, editId := Some ''nope''\<rparr>)) = tasks ex_board \<and>
   tasks (moveTask ''nope'' 1 ex_now ex_board) = tasks ex_board \<and>
   tasks (moveTask ''nope'' (- 1) ex_now ex_board) = tasks ex_board \<and>
   tasks (saveNote (ex_board\<lparr>activeNote := Some ''nope'', noteText := ''seen''\<rparr>)) = tasks ex_board"
proof -
  let ?e = "ex_board\<lparr>formData := ex_draft, editId := Some ''nope''\<rparr>"
  let ?n = "ex_board\<lparr>activeNote := Some ''nope'', noteText := ''seen''\<rparr>"
  have a: "\<forall>x \<in> set (tasks ex_board). task_id x \<noteq> ''nope''"
    and b: "\<forall>x \<in> set (tasks ?e). task_id x \<noteq> ''nope''"
    and c: "\<forall>x \<in> set (tasks ?n). task_id x \<noteq> ''nope''"
    by (simp_all add: ex_defs)
  have v: "validateForm ex_draft = []"
    by (simp add: validateForm_empty_iff ex_defs trim_def isWhiteSpace_def)
  have "tasks (saveTask ''zz9'' ex_now ?e) = tasks ex_board"
    using absent_id_frame [OF b, of "''zz9''" ex_now 1] v by simp
  moreover have "tasks (moveTask ''nope'' 1 ex_now ex_board) = tasks ex_board"
    using absent_id_frame [OF a, of "''zz9''" ex_now 1] by simp
  moreover have "tasks (moveTask ''nope'' (- 1) ex_now ex_board) = tasks ex_board"
    using absent_id_frame [OF a, of "''zz9''" ex_now "- 1"] by simp
  moreover have "tasks (saveNote ?n) = tasks ex_board"
    using absent_id_frame [OF c, of "''zz9''" ex_now 1] by (simp add: MAX_NOTES_def)
  moreover have "list_all (\<lambda>x. task_id x \<noteq> ''nope'') (tasks ex_board)"
    using a by (simp add: list_all_iff)
  ultimately show ?thesis
    using v by blast
qed

section \<open>The completion time and the last column\<close>

lemma consistent_moveOne: "consistent x \<Longrightarrow> consistent (moveOne i dir now x)"
  by (simp add: moveOne_def consistent_def stamp_def Let_def truthy_def split: option.splits)

lemma consistent_moveTask:
  "list_all consistent (tasks s) \<Longrightarrow> list_all consistent (tasks (moveTask i dir now s))"
  by (simp add: moveTask_def list_all_iff consistent_moveOne)

lemma consistent_onDrop:
  "list_all consistent (tasks s) \<Longrightarrow> list_all consistent (tasks (onDrop col now s))"
  by (auto simp add: onDrop_def Let_def list_all_iff consistent_def stamp_def split: option.splits)

lemma consistent_saveNote:
  "list_all consistent (tasks s) \<Longrightarrow> list_all consistent (tasks (saveNote s))"
  by (auto simp add: saveNote_def list_all_iff consistent_def)

lemma consistent_deleteTask:
  "list_all consistent (tasks s) \<Longrightarrow> list_all consistent (tasks (deleteTask i s))"
  by (auto simp add: deleteTask_def list_all_iff)

lemma consistent_create:
  "list_all consistent (tasks s) \<Longrightarrow> stage (formData s) \<noteq> ''Completed'' \<Longrightarrow>
   \<not> truthy (editId s) \<Longrightarrow> list_all consistent (tasks (saveTask newId now s))"
  by (auto simp add: saveTask_def Let_def closeForm_def newTask_def list_all_iff consistent_def)

lemma consistent_update:
  "list_all consistent (tasks s) \<Longrightarrow> truthy (editId s) \<Longrightarrow>
   list_all (\<lambda>x. Some (task_id x) \<noteq> editId s \<or>
                  (stage (formData s) = ''Completed'') = (stage x = ''Completed'')) (tasks s) \<Longrightarrow>
   list_all consistent (tasks (saveTask newId now s))"
  by (auto simp add: saveTask_def Let_def closeForm_def spread_def list_all_iff consistent_def)

lemma ui_simps [simp]:
  "tasks (openForm t s) = tasks s" "tasks (setFormData d s) = tasks s"
  "formData (setFormData d s) = d" "editId (setFormData d s) = editId s"
  "editId (openForm None s) = None" "editId (openForm (Some x) s) = Some (task_id x)"
  "tasks (openNote x s) = tasks s" "tasks (setNoteText body s) = tasks s"
  "tasks (onDragStart i s) = tasks s"
  by (simp_all add: openForm_def setFormData_def openNote_def setNoteText_def onDragStart_def)

lemma consistent_apply_op:
  assumes "list_all consistent (tasks s)" and "keeps s o1"
  shows "list_all consistent (tasks (apply_op o1 s))"
proof (cases o1)
  case (Create d newId now)
  then show ?thesis
    using assms consistent_create [of "setFormData d (openForm None s)" newId now] by simp
next
  case (Update i d newId now)
  show ?thesis
  proof (cases "find (\<lambda>x. task_id x = i) (tasks s)")
    case None
    then show ?thesis using assms Update by simp
  next
    case (Some t)
    then have t: "task_id t = i"
      by (auto simp add: find_Some_iff)
    show ?thesis
    proof (cases "i = []")
      case True
      then show ?thesis
        using assms Update Some t
          consistent_create [of "setFormData d (openForm (Some t) s)" newId now]
        by simp
    next
      case False
      then show ?thesis
        using assms Update Some t
          consistent_update [of "setFormData d (openForm (Some t) s)" newId now]
        by simp
    qed
  qed
next
  case (MoveStage i dir now)
  then show ?thesis using assms by (simp add: consistent_moveTask)
next
  case (SetStage i col now)
  then show ?thesis
    using assms consistent_onDrop [of "onDragStart i s" col now] by simp
next
  case (SetNotes i body)
  then show ?thesis
    using assms consistent_saveNote by (simp split: option.splits)
next
  case (Delete i)
  then show ?thesis using assms by (simp add: consistent_deleteTask)
qed

text \<open>
  Claim C1, as stated: after every sequence of operations from a consistent array, every
  task has \<^verbatim>\<open>completedAt\<close> exactly when its stage is \<^verbatim>\<open>Completed\<close>. It fails for the form:
  \<^verbatim>\<open>saveTask\<close> creates a task with \<^verbatim>\<open>completedAt:null\<close> in whatever stage the form's select
  holds, and an edit replaces the stage and keeps \<^verbatim>\<open>completedAt\<close>. From the empty board,
  creating a task in stage \<^verbatim>\<open>Completed\<close> gives a completed task with no completion time,
  and so does creating it in \<^verbatim>\<open>Backlog\<close> and editing its stage to \<^verbatim>\<open>Completed\<close>; moving a
  task to \<^verbatim>\<open>Completed\<close> and editing its stage back to \<^verbatim>\<open>Backlog\<close> leaves a completion
  time on a task that is not completed.
\<close>

theorem completedAt_iff_Completed_counterexample:
  "\<not> list_all consistent (tasks (run [Create ex_done_draft ''k1'' ex_now] initial)) \<and>
   \<not> list_all consistent
       (tasks (run [Create ex_draft ''k1'' ex_now, Update ''k1'' ex_done_draft ''k2'' ex_now] initial)) \<and>
   \<not> list_all consistent
       (tasks (run [Create ex_draft ''k1'' ex_now, SetStage ''k1'' ''Completed'' ex_now,
                    Update ''k1'' ex_draft ''k2'' ex_now] initial))"
  by (simp add: ex_defs saveTask_def validateForm_def Let_def trim_def isWhiteSpace_def
      MAX_TITLE_def MAX_NOTES_def closeForm_def newTask_def spread_def consistent_def
      onDrop_def stamp_def openForm_def setFormData_def onDragStart_def)

text \<open>
  Claim C1, amended: from an array in which every task has \<^verbatim>\<open>completedAt\<close> exactly when
  its stage is \<^verbatim>\<open>Completed\<close>, every sequence of moves, drops, note savings and deletions,
  of creations whose form does not hold the stage \<^verbatim>\<open>Completed\<close>, and of edits whose form
  holds the stage \<^verbatim>\<open>Completed\<close> exactly when the edited task is in it, ends in such an
  array.
\<close>

theorem completedAt_iff_Completed:
  "list_all consistent (tasks s) \<Longrightarrow> admissible s ops \<Longrightarrow>
   list_all consistent (tasks (run ops s))"
  by (induction ops arbitrary: s) (simp_all add: consistent_apply_op)

theorem completedAt_iff_Completed_witness:
  "list_all consistent (tasks initial) \<and> admissible initial ex_ops \<and>
   list_all consistent (tasks (run ex_ops initial)) \<and>
   map stage (tasks (run ex_ops initial)) = [''Review/QA'']"
proof -
  have i: "list_all consistent (tasks initial)"
    by (simp add: initial_def)
  have a: "admissible initial ex_ops"
    by (simp add: ex_ops_def ex_defs saveTask_def validateForm_def Let_def trim_def isWhiteSpace_def
      MAX_TITLE_def MAX_NOTES_def closeForm_def newTask_def spread_def onDrop_def stamp_def
      moveTask_def moveOne_def indexOf_def elemAt_def COLUMNS_def saveNote_def deleteTask_def
      openForm_def setFormData_def openNote_def setNoteText_def onDragStart_def)
  have r: "map stage (tasks (run ex_ops initial)) = [''Review/QA'']"
    by (simp add: ex_ops_def ex_defs saveTask_def validateForm_def Let_def trim_def isWhiteSpace_def
      MAX_TITLE_def MAX_NOTES_def closeForm_def newTask_def spread_def onDrop_def stamp_def
      moveTask_def moveOne_def indexOf_def elemAt_def COLUMNS_def saveNote_def deleteTask_def
      openForm_def setFormData_def openNote_def setNoteText_def onDragStart_def)
  from completedAt_iff_Completed [OF i a] i a r show ?thesis
    by blast
qed

section \<open>Properties of the numbers\<close>

declare bitLength.simps [simp del]

lemma bitLength_bounds: "0 < n \<Longrightarrow> 2 ^ (bitLength n - 1) \<le> n \<and> n < 2 ^ bitLength n"
proof (induction n rule: bitLength.induct)
  case (1 n)
  show ?case
  proof (cases "n div 2 = 0")
    case True
    with 1(2) have "n = 1"
      by (simp add: div_eq_0_iff)
    then show ?thesis
      by (simp add: bitLength.simps)
  next
    case False
    then have pos: "0 < n div 2"
      by simp
    from 1(1) [OF _ pos] 1(2)
    have ih: "2 ^ (bitLength (n div 2) - 1) \<le> n div 2" "n div 2 < 2 ^ bitLength (n div 2)"
      by auto
    have b: "bitLength n = Suc (bitLength (n div 2))"
      using 1(2) by (simp add: bitLength.simps [of n])
    have "0 < bitLength (n div 2)"
      using pos by (simp add: bitLength.simps [of "n div 2"])
    then have e: "bitLength n - 1 = Suc (bitLength (n div 2) - 1)"
      using b by simp
    have "2 * 2 ^ (bitLength (n div 2) - 1) \<le> n"
      using ih(1) by linarith
    moreover have "n < 2 * 2 ^ bitLength (n div 2)"
      using ih(2) by linarith
    ultimately show ?thesis
      unfolding e unfolding b by simp
  qed
qed

lemma bitLength_pos: "0 < n \<Longrightarrow> 0 < bitLength n"
  by (simp add: bitLength.simps [of n])

lemma pow2_powi: "pow2 k = 2 powi k"
  by (simp add: pow2_def power_int_def inverse_eq_divide power_one_over)

lemma pow2_mono: "a \<le> b \<Longrightarrow> pow2 a \<le> pow2 b"
  by (simp add: pow2_powi power_int_increasing)

lemma pow2_pos: "0 < pow2 k"
  by (simp add: pow2_powi)

lemma pow2_diff: "pow2 (a - b) = pow2 a / pow2 b"
  by (simp add: pow2_powi power_int_diff)

lemma pow2_nat: "pow2 (int n) = 2 ^ n"
  by (simp add: pow2_def)

lemma bitLength_rat:
  assumes "0 < p"
  shows "pow2 (int (bitLength (nat p)) - 1) \<le> of_int p \<and>
         of_int p < pow2 (int (bitLength (nat p)))"
proof -
  let ?b = "bitLength (nat p)"
  from bitLength_bounds [of "nat p"] assms
  have P: "2 ^ (?b - 1) \<le> nat p" "nat p < 2 ^ ?b"
    by simp_all
  have b: "0 < ?b"
    using assms by (simp add: bitLength_pos)
  have "int (2 ^ (?b - 1)) \<le> int (nat p)"
    using P(1) by (simp only: of_nat_le_iff)
  then have 1: "(2::int) ^ (?b - 1) \<le> p"
    using assms by simp
  have "int (nat p) < int (2 ^ ?b)"
    using P(2) by (simp only: of_nat_less_iff)
  then have 2: "p < (2::int) ^ ?b"
    using assms by simp
  have "(of_int ((2::int) ^ (?b - 1)) :: rat) \<le> of_int p"
    using 1 by (simp only: of_int_le_iff)
  then have 3: "(2::rat) ^ (?b - 1) \<le> of_int p"
    by simp
  have "(of_int p :: rat) < of_int ((2::int) ^ ?b)"
    using 2 by (simp only: of_int_less_iff)
  then have 4: "(of_int p :: rat) < 2 ^ ?b"
    by simp
  have "int ?b - 1 = int (?b - 1)"
    using b by (simp add: of_nat_diff)
  then have "pow2 (int ?b - 1) = 2 ^ (?b - 1)"
    by (simp only: pow2_nat)
  then show ?thesis
    using 3 4 by (simp only: pow2_nat)
qed

text \<open>The exponent is the one of the binade the number lies in, and the only such one.\<close>

lemma exponent_bounds:
  assumes "0 < x"
  shows "pow2 (exponent x) \<le> x \<and> x < pow2 (exponent x + 1)"
proof -
  obtain p q where pq: "quotient_of x = (p, q)"
    by (cases "quotient_of x")
  then have q: "0 < q" and x: "x = of_int p / of_int q"
    using quotient_of_denom_pos quotient_of_div by auto
  from assms x q have p: "0 < p"
    by (simp add: zero_less_divide_iff)
  define bp where "bp = int (bitLength (nat p))"
  define bq where "bq = int (bitLength (nat q))"
  note P = bitLength_rat [OF p, folded bp_def]
  note Q = bitLength_rat [OF q, folded bq_def]
  have qr: "(0::rat) < of_int q"
    using q by simp
  have "x < pow2 bp / pow2 (bq - 1)"
    unfolding x using P Q p pow2_pos [of "bq - 1"]
    by (intro frac_less) simp_all
  then have up: "x < pow2 (bp - bq + 1)"
    by (simp add: pow2_diff [symmetric] algebra_simps)
  have "pow2 (bp - 1) / pow2 bq < x"
    unfolding x using P Q qr pow2_pos [of "bp - 1"]
    by (intro frac_less2) simp_all
  then have lo: "pow2 (bp - bq - 1) < x"
    by (simp add: pow2_diff [symmetric] algebra_simps)
  have e: "exponent x = (if pow2 (bp - bq) \<le> x then bp - bq else bp - bq - 1)"
    by (simp add: exponent_def pq bp_def bq_def)
  show ?thesis
    using up lo by (auto simp add: e)
qed

lemma exponent_unique:
  assumes "0 < x" and "pow2 e \<le> x" and "x < pow2 (e + 1)"
  shows "exponent x = e"
proof -
  from exponent_bounds [OF assms(1)]
  have b: "pow2 (exponent x) \<le> x" "x < pow2 (exponent x + 1)"
    by simp_all
  have "\<not> exponent x < e"
  proof
    assume "exponent x < e"
    then have "pow2 (exponent x + 1) \<le> pow2 e"
      by (intro pow2_mono) simp
    with b(2) assms(2) show False
      by simp
  qed
  moreover have "\<not> e < exponent x"
  proof
    assume "e < exponent x"
    then have "pow2 (e + 1) \<le> pow2 (exponent x)"
      by (intro pow2_mono) simp
    with b(1) assms(3) show False
      by simp
  qed
  ultimately show ?thesis
    by simp
qed

lemma roundTiesToEven_down:
  assumes "of_int f \<le> q" and "q < of_int f + 1 / 2"
  shows "roundTiesToEven q = f"
proof -
  from assms have "\<lfloor>q\<rfloor> = f"
    by (intro floor_unique) simp_all
  then show ?thesis
    using assms by (simp add: roundTiesToEven_def Let_def)
qed

lemma trim_mem:
  assumes "\<not> isWhiteSpace x" and "x \<in> set s"
  shows "x \<in> set (trim s)"
proof -
  have dw: "x \<in> set (dropWhile isWhiteSpace u)" if "x \<in> set u" for u
    using that assms(1) by (induction u) auto
  show ?thesis
    unfolding trim_def using dw assms(2) by (metis set_rev)
qed

text \<open>A number that is a double is its own number value.\<close>

lemma roundTiesToEven_int: "roundTiesToEven (of_int k) = k"
  by (simp add: roundTiesToEven_def)

lemma numberValue_exact:
  assumes "x \<noteq> 0" and "pow2 e \<le> \<bar>x\<bar>" and "\<bar>x\<bar> < pow2 (e + 1)"
    and "- 1022 \<le> e" and "e \<le> 1023" and "\<bar>x\<bar> / pow2 (e - 52) = of_int k"
  shows "numberValue x = Finite x"
proof -
  have ex: "exponent \<bar>x\<bar> = e"
    using assms(1-3) by (intro exponent_unique) simp_all
  have m: "max e (- 1022) = e"
    using assms(4) by simp
  have "of_int k * pow2 (e - 52) = \<bar>x\<bar>"
    using assms(6) pow2_pos [of "e - 52"] by (simp add: field_simps)
  then have r: "of_int (roundTiesToEven (\<bar>x\<bar> / pow2 (e - 52))) * pow2 (e - 52) = \<bar>x\<bar>"
    by (simp only: assms(6) roundTiesToEven_int)
  have "pow2 (e + 1) \<le> pow2 1024"
    using assms(5) by (intro pow2_mono) simp
  then have lt: "\<not> pow2 1024 \<le> \<bar>x\<bar>"
    using assms(3) by simp
  have "numberValue x = Finite (sgn x * \<bar>x\<bar>)"
    unfolding numberValue_def Let_def ex m r using assms(1) lt by simp
  then show ?thesis
    by (simp add: mult_sgn_abs)
qed

lemma numberValue_int:
  assumes "\<bar>n\<bar> < 2 ^ 53"
  shows "numberValue (of_int n) = Finite (of_int n)"
proof (cases "n = 0")
  case True
  then show ?thesis by (simp add: numberValue_def)
next
  case False
  let ?x = "of_int n :: rat"
  define e where "e = exponent \<bar>?x\<bar>"
  have pos: "0 < \<bar>?x\<bar>"
    using False by simp
  from exponent_bounds [OF pos]
  have b: "pow2 e \<le> \<bar>?x\<bar>" "\<bar>?x\<bar> < pow2 (e + 1)"
    by (simp_all add: e_def)
  have "1 \<le> \<bar>n\<bar>"
    using False by simp
  then have "(of_int 1 :: rat) \<le> of_int \<bar>n\<bar>"
    by (simp only: of_int_le_iff)
  then have one: "1 \<le> \<bar>?x\<bar>"
    by simp
  have lo: "0 \<le> e"
  proof (rule ccontr)
    assume "\<not> 0 \<le> e"
    then have "pow2 (e + 1) \<le> pow2 0"
      by (intro pow2_mono) simp
    with b(2) one show False
      by (simp add: pow2_def)
  qed
  have "(of_int \<bar>n\<bar> :: rat) < of_int (2 ^ 53)"
    using assms by (simp only: of_int_less_iff)
  then have lt: "\<bar>?x\<bar> < pow2 53"
    by (simp add: pow2_def)
  have hi: "e \<le> 52"
  proof (rule ccontr)
    assume "\<not> e \<le> 52"
    then have "pow2 53 \<le> pow2 e"
      by (intro pow2_mono) simp
    with b(1) lt show False
      by simp
  qed
  have "pow2 (e - 52) = 1 / 2 ^ nat (52 - e)"
    using hi by (cases "e = 52") (simp_all add: pow2_def)
  then have k: "\<bar>?x\<bar> / pow2 (e - 52) = of_int (\<bar>n\<bar> * 2 ^ nat (52 - e))"
    by simp
  have x: "?x \<noteq> 0"
    using False by simp
  have r: "- 1022 \<le> e" "e \<le> 1023"
    using lo hi by simp_all
  show ?thesis
    by (rule numberValue_exact [OF x b(1) b(2) r k])
qed

lemma numberValue_0 [simp]: "numberValue 0 = Finite 0"
  by (simp add: numberValue_def)

lemma numberValue_1 [simp]: "numberValue 1 = Finite 1"
  using numberValue_int [of 1] by simp

lemma numberValue_minus_1 [simp]: "numberValue (- 1) = Finite (- 1)"
  using numberValue_int [of "- 1"] by simp

lemma numberValue_numeral:
  "numeral k < (2::int) ^ 53 \<Longrightarrow> numberValue (numeral k) = Finite (numeral k)"
  using numberValue_int [of "numeral k"] by simp

text \<open>The members of a numeric literal.\<close>

lemma isDigit_hexValue: "isDigit c \<Longrightarrow> hexValue c \<noteq> None"
  by (simp add: isDigit_def hexValue_def Let_def)

lemma digitsInt_chars: "digitsInt ds = Some v \<Longrightarrow> c \<in> set ds \<Longrightarrow> isDigit c"
  by (auto simp add: digitsInt_def list_all_iff split: if_splits)

lemma signedInteger_chars:
  "signedInteger s = Some v \<Longrightarrow> c \<in> set s \<Longrightarrow> isDigit c \<or> c = CHR ''+'' \<or> c = CHR ''-''"
  by (cases s) (auto simp add: signedInteger_def dest: digitsInt_chars split: if_splits)

lemma exponentPart_chars:
  "exponentPart r = Some v \<Longrightarrow> c \<in> set r \<Longrightarrow>
     isDigit c \<or> c = CHR ''+'' \<or> c = CHR ''-'' \<or> c = CHR ''e'' \<or> c = CHR ''E''"
  by (cases r) (auto simp add: exponentPart_def dest: signedInteger_chars split: if_splits)

lemma unsignedDecimal_chars:
  assumes "unsignedDecimal u = Some v" and "c \<in> set u"
  shows "isDigit c \<or> c = CHR ''.'' \<or> c = CHR ''+'' \<or> c = CHR ''-'' \<or> c = CHR ''e''
     \<or> c = CHR ''E''"
proof -
  define r1 where "r1 = dropWhile isDigit u"
  define dot where "dot \<longleftrightarrow> r1 \<noteq> [] \<and> hd r1 = CHR ''.''"
  define r2 where "r2 = (if dot then dropWhile isDigit (tl r1) else r1)"
  have "exponentPart r2 \<noteq> None"
  proof
    assume "exponentPart r2 = None"
    then have "unsignedDecimal u = None"
      unfolding unsignedDecimal_def Let_def r1_def [symmetric]
      unfolding dot_def [symmetric] unfolding r2_def [symmetric] by simp
    with assms(1) show False
      by simp
  qed
  then obtain ex where ex: "exponentPart r2 = Some ex"
    by auto
  note E = exponentPart_chars [OF ex, of c]
  have "set (takeWhile isDigit u) \<union> set r1 = set u"
    by (simp only: set_append [symmetric] takeWhile_dropWhile_id r1_def)
  with assms(2) have "c \<in> set (takeWhile isDigit u) \<or> c \<in> set r1"
    by blast
  then show ?thesis
  proof
    assume "c \<in> set (takeWhile isDigit u)"
    then have "isDigit c"
      by (rule set_takeWhileD [THEN conjunct2])
    then show ?thesis
      by simp
  next
    assume c: "c \<in> set r1"
    show ?thesis
    proof (cases dot)
      case False
      then have "r2 = r1"
        by (simp add: r2_def)
      with c E show ?thesis
        by blast
    next
      case True
      then have r1: "r1 = CHR ''.'' # tl r1"
        by (cases r1) (simp_all add: dot_def)
      have "set (takeWhile isDigit (tl r1)) \<union> set r2 = set (tl r1)"
        using True by (simp only: r2_def if_True set_append [symmetric] takeWhile_dropWhile_id)
      moreover from c r1 have "c = CHR ''.'' \<or> c \<in> set (tl r1)"
        by (metis set_ConsD)
      ultimately have "c = CHR ''.'' \<or> c \<in> set (takeWhile isDigit (tl r1)) \<or> c \<in> set r2"
        by blast
      moreover have "isDigit c" if "c \<in> set (takeWhile isDigit (tl r1))"
        using that by (rule set_takeWhileD [THEN conjunct2])
      ultimately show ?thesis
        using E by blast
    qed
  qed
qed

lemma radixValue_chars:
  assumes "radixValue b ds = Some n" and "c \<in> set ds"
  shows "hexValue c \<noteq> None"
proof -
  from assms have "case hexValue c of None \<Rightarrow> False | Some v \<Rightarrow> v < b"
    by (auto simp add: radixValue_def list_all_iff split: if_splits)
  then show ?thesis
    by (cases "hexValue c") simp_all
qed

lemma nonDecimal_chars:
  assumes "nonDecimal t = Some n" and "c \<in> set t"
  shows "hexValue c \<noteq> None \<or> c = CHR ''b'' \<or> c = CHR ''B'' \<or> c = CHR ''o'' \<or> c = CHR ''O''
     \<or> c = CHR ''x'' \<or> c = CHR ''X''"
proof (cases t)
  case Nil
  with assms(1) show ?thesis
    by (simp add: nonDecimal_def)
next
  case (Cons z t')
  show ?thesis
  proof (cases t')
    case Nil
    with assms(1) Cons show ?thesis
      by (simp add: nonDecimal_def)
  next
    case (Cons p ds)
    have t: "t = z # p # ds"
      using \<open>t = z # t'\<close> Cons by simp
    have z: "z = CHR ''0''"
      using assms(1) by (simp add: nonDecimal_def t split: if_splits)
    have p: "p = CHR ''b'' \<or> p = CHR ''B'' \<or> p = CHR ''o'' \<or> p = CHR ''O''
        \<or> p = CHR ''x'' \<or> p = CHR ''X''"
      using assms(1) by (simp add: nonDecimal_def t z split: if_splits; blast)
    have r: "radixValue 2 ds = Some n \<or> radixValue 8 ds = Some n \<or> radixValue 16 ds = Some n"
      using assms(1) by (simp add: nonDecimal_def t z split: if_splits)
    have h: "hexValue c \<noteq> None" if "c \<in> set ds"
      using r that radixValue_chars by blast
    have "hexValue z \<noteq> None"
      by (simp add: z hexValue_def)
    moreover from assms(2) have "c = z \<or> c = p \<or> c \<in> set ds"
      by (simp add: t)
    ultimately show ?thesis
      using p h by blast
  qed
qed

text \<open>
  A string that holds a character other than white space that no numeric literal is made
  of is not a number.
\<close>

lemma Number_NaN:
  assumes "c \<in> set s" and "\<not> isWhiteSpace c" and "hexValue c = None"
    and "c \<notin> set ''+-.xXoOInity''"
  shows "Number s = NaN"
proof -
  have e: "c \<noteq> CHR ''e''" "c \<noteq> CHR ''E''" "c \<noteq> CHR ''b''" "c \<noteq> CHR ''B''" "c \<noteq> CHR ''f''"
    using assms(3) by (auto simp add: hexValue_def)
  have d: "\<not> isDigit c"
    using assms(3) isDigit_hexValue by blast
  have lit: "unsignedLiteral neg u = NaN" if "c \<in> set u" for neg u
  proof -
    have "u \<noteq> ''Infinity''"
      using that assms(4) e by auto
    moreover have "unsignedDecimal u = None"
    proof (rule ccontr)
      assume "unsignedDecimal u \<noteq> None"
      then obtain v where "unsignedDecimal u = Some v"
        by auto
      from unsignedDecimal_chars [OF this that] show False
        using d e assms(4) by auto
    qed
    ultimately show ?thesis
      by (simp add: unsignedLiteral_def)
  qed
  define t where "t = trim s"
  have c: "c \<in> set t"
    unfolding t_def using assms(1,2) by (intro trim_mem)
  then obtain a u where t: "t = a # u"
    by (cases t) auto
  have n: "nonDecimal t = None"
  proof (rule ccontr)
    assume "nonDecimal t \<noteq> None"
    then obtain n where "nonDecimal t = Some n"
      by auto
    from nonDecimal_chars [OF this c] show False
      using assms(3,4) e by auto
  qed
  have "decimalLiteral t = NaN"
  proof (cases "a = CHR ''+'' \<or> a = CHR ''-''")
    case True
    with c assms(4) have "c \<in> set u"
      by (auto simp add: t)
    with True show ?thesis
      by (auto simp add: decimalLiteral_def t lit)
  next
    case False
    from c have "unsignedLiteral False (a # u) = NaN"
      by (intro lit) (simp add: t)
    with False show ?thesis
      by (simp add: decimalLiteral_def t)
  qed
  with n show ?thesis
    by (simp add: Number_def Let_def t_def [symmetric] t)
qed

section \<open>Properties of the dates\<close>

lemma msPerDay_pos: "0 < msPerDay"
  by (simp add: msPerDay_def)

text \<open>Every date that \<^verbatim>\<open>parseLocalDate\<close> returns is a local midnight.\<close>

lemma newDate_midnight:
  "newDate tza y m d = TimeValue t \<Longrightarrow> \<exists>dy. t = UTC tza (dy * msPerDay)"
  by (cases y; cases m; cases d)
    (auto simp add: newDate_def TimeClip_def Let_def split: if_splits option.splits)

lemma parseLocalDate_midnight:
  "parseLocalDate tza str = Some (TimeValue t) \<Longrightarrow> \<exists>dy. t = UTC tza (dy * msPerDay)"
  by (auto simp add: parseLocalDate_def Let_def dest: newDate_midnight split: if_splits)

text \<open>In a zone of one offset the local midnights are in the order of their days.\<close>

lemma fixed_zone_midnight:
  assumes "\<forall>t b. tza t b = c"
  shows "Day (LocalTime tza (UTC tza (dy * msPerDay))) = dy"
  using assms msPerDay_pos by (simp add: Day_def LocalTime_def UTC_def)

lemma fixed_zone_setHours0:
  assumes "\<forall>t b. tza t b = c" and "\<bar>now\<bar> + msPerDay \<le> 8640000000000000"
  shows "setHours0 tza (TimeValue now) = TimeValue (Day (LocalTime tza now) * msPerDay - c)"
proof -
  let ?m = "Day (now + c) * msPerDay - c"
  have "Day (now + c) * msPerDay = now + c - (now + c) mod msPerDay"
    by (simp add: Day_def minus_mod_eq_div_mult)
  then have m: "?m = now - (now + c) mod msPerDay"
    by simp
  have "0 \<le> (now + c) mod msPerDay" "(now + c) mod msPerDay < msPerDay"
    using msPerDay_pos by simp_all
  with m assms(2) have "\<bar>?m\<bar> \<le> 8640000000000000"
    by linarith
  then show ?thesis
    using assms(1) by (simp add: setHours0_def TimeClip_def UTC_def LocalTime_def)
qed

text \<open>
  Claim C7. \<^verbatim>\<open>isOverdue\<close> is false when the due date is absent (\<^verbatim>\<open>null\<close> or the empty
  string) and when the stage is \<^verbatim>\<open>Completed\<close>, whatever the due date. Otherwise it is true
  exactly when \<^verbatim>\<open>parseLocalDate\<close> gives a valid date that lies strictly before today's date
  with the time of day zeroed, the local midnight that starts the day of the current
  time. The time of day of the current time plays no part: at two times of one local day
  the answer is the same. In a time zone of one offset, for a current time a day or more
  inside the range of time values, the comparison is that of the local days of the two
  dates.
\<close>

theorem isOverdue_calendar_day:
  "isOverdue tza now None stg = False \<and> isOverdue tza now (Some []) stg = False \<and>
   isOverdue tza now dueStr ''Completed'' = False \<and>
   (isOverdue tza now dueStr stg \<longleftrightarrow>
      truthy dueStr \<and> stg \<noteq> ''Completed'' \<and>
      (case (parseLocalDate tza dueStr, setHours0 tza (TimeValue now)) of
         (Some (TimeValue t), TimeValue today) \<Rightarrow> t < today
       | _ \<Rightarrow> False)) \<and>
   (Day (LocalTime tza now) = Day (LocalTime tza now') \<longrightarrow>
      isOverdue tza now dueStr stg = isOverdue tza now' dueStr stg) \<and>
   ((\<forall>t b. tza t b = c) \<and> \<bar>now\<bar> + msPerDay \<le> 8640000000000000 \<longrightarrow>
      (isOverdue tza now dueStr stg \<longleftrightarrow>
         truthy dueStr \<and> stg \<noteq> ''Completed'' \<and>
         (case parseLocalDate tza dueStr of
            Some (TimeValue t) \<Rightarrow> Day (LocalTime tza t) < Day (LocalTime tza now)
          | _ \<Rightarrow> False)))"
proof -
  have absent: "isOverdue tza now None stg = False" "isOverdue tza now (Some []) stg = False"
    "isOverdue tza now dueStr ''Completed'' = False"
    by (simp_all add: isOverdue_def truthy_def)
  have rel: "isOverdue tza now dueStr stg \<longleftrightarrow>
      truthy dueStr \<and> stg \<noteq> ''Completed'' \<and>
      (case (parseLocalDate tza dueStr, setHours0 tza (TimeValue now)) of
         (Some (TimeValue t), TimeValue today) \<Rightarrow> t < today
       | _ \<Rightarrow> False)"
    by (simp add: isOverdue_def dateLess_def split: option.splits jsdate.splits)
  have same: "isOverdue tza now dueStr stg = isOverdue tza now' dueStr stg"
    if "Day (LocalTime tza now) = Day (LocalTime tza now')"
  proof -
    from that have h: "setHours0 tza (TimeValue now) = setHours0 tza (TimeValue now')"
      by (simp add: setHours0_def)
    show ?thesis
      by (simp only: isOverdue_def h)
  qed
  have days: "isOverdue tza now dueStr stg \<longleftrightarrow>
      truthy dueStr \<and> stg \<noteq> ''Completed'' \<and>
      (case parseLocalDate tza dueStr of
         Some (TimeValue t) \<Rightarrow> Day (LocalTime tza t) < Day (LocalTime tza now)
       | _ \<Rightarrow> False)"
    if z: "\<forall>t b. tza t b = c" and b: "\<bar>now\<bar> + msPerDay \<le> 8640000000000000"
  proof (cases "parseLocalDate tza dueStr")
    case None
    then show ?thesis by (simp add: isOverdue_def)
  next
    case (Some d)
    show ?thesis
    proof (cases d)
      case InvalidDate
      with Some show ?thesis by (simp add: isOverdue_def dateLess_def)
    next
      case (TimeValue t)
      with Some obtain dy where t: "t = UTC tza (dy * msPerDay)"
        using parseLocalDate_midnight by blast
      have dy: "Day (LocalTime tza t) = dy"
        unfolding t by (rule fixed_zone_midnight [OF z])
      have "t < Day (LocalTime tza now) * msPerDay - c \<longleftrightarrow>
          dy * msPerDay < Day (LocalTime tza now) * msPerDay"
        using z by (simp add: t UTC_def)
      also have "\<dots> \<longleftrightarrow> dy < Day (LocalTime tza now)"
        using msPerDay_pos by simp
      finally show ?thesis
        using Some TimeValue
        by (simp add: isOverdue_def dateLess_def fixed_zone_setHours0 [OF z b] dy)
    qed
  qed
  from absent rel same days show ?thesis
    by blast
qed

text \<open>
  \<^verbatim>\<open>Number\<close> on pieces of date strings: digits, the notations of a numeric literal, and
  pieces that are no literal.
\<close>

lemma numberValue_3_2: "numberValue (3 / 2) = Finite (3 / 2)"
  by (rule numberValue_exact [of _ 0 "3 * 2 ^ 51"]) (simp_all add: pow2_def)

lemmas Number_defs = Number_def trim_def isWhiteSpace_def nonDecimal_def radixValue_def
  hexValue_def decimalLiteral_def unsignedLiteral_def unsignedDecimal_def exponentPart_def
  signedInteger_def digitsInt_def isDigit_def digitsValue_def pow10_def Let_def
  numberValue_numeral numberValue_3_2

lemma Number_examples:
  "Number [] = Finite 0"
  "Number ''2020'' = Finite 2020"
  "Number ''2024'' = Finite 2024"
  "Number ''2011'' = Finite 2011"
  "Number ''01'' = Finite 1"
  "Number ''12'' = Finite 12"
  "Number ''30'' = Finite 30"
  "Number ''31'' = Finite 31"
  "Number '' 31 '' = Finite 31"
  "Number ''+2020'' = Finite 2020"
  "Number ''1.5'' = Finite (3 / 2)"
  "Number ''.15e1'' = Finite (3 / 2)"
  "Number ''2e3'' = Finite 2000"
  "Number ''0x7E4'' = Finite 2020"
  "Number ''0b11'' = Finite 3"
  "Number ''0O17'' = Finite 15"
  "Number ''Infinity'' = PosInfinity"
  "Number ''-Infinity'' = NegInfinity"
  "Number ''-0x10'' = NaN"
  "Number ''.'' = NaN"
  "Number ''1e'' = NaN"
  "Number ''0x'' = NaN"
  "Number ''1 2'' = NaN"
  "Number ''15T10:30:00.000Z'' = NaN"
  by (simp_all add: Number_defs)

text \<open>
  The dates of the example tasks, in every time zone; a due date written with a sign and
  one written with a fraction; a time stamp, which is no date.
\<close>

lemma floor_3_2: "\<lfloor>3 / 2 :: rat\<rfloor> = 1"
  by (rule floor_unique) simp_all

lemmas Date_defs = parseLocalDate_def truthy_def piece_def minusOne_def newDate_def
  ToIntegerOrInfinity_def MakeDay_def DayFromYear_def monthStart_def InLeapYear_def Let_def

lemma parseLocalDate_examples:
  "parseLocalDate tza (Some ''2020-01-01'') = Some (TimeClip (UTC tza (18262 * msPerDay)))"
  "parseLocalDate tza (Some ''2024-01-31'') = Some (TimeClip (UTC tza (19753 * msPerDay)))"
  "parseLocalDate tza (Some ''+2020-01-01'') = Some (TimeClip (UTC tza (18262 * msPerDay)))"
  "parseLocalDate tza (Some ''2024-01-1.5'') = Some (TimeClip (UTC tza (19723 * msPerDay)))"
  "parseLocalDate tza (Some ''2011-12-30'') = Some (TimeClip (UTC tza (15338 * msPerDay)))"
  "parseLocalDate tza (Some ''2024-01-15T10:30:00.000Z'') = Some InvalidDate"
  by (simp_all add: Date_defs Number_examples numberValue_numeral floor_3_2,
      simp_all add: msPerDay_def)

text \<open>
  The scenario of the specification, an hour east of UTC: tasks A (\<^verbatim>\<open>Backlog\<close>) and B
  (\<^verbatim>\<open>Completed\<close>), both due on 1 January 2020, seen at noon UTC of 1 February 2024; a task
  due on 31 January 2024, seen in the last millisecond of that local day, in the first of
  the next and at noon UTC of the next; and a task whose due date is written with a sign.
\<close>

theorem isOverdue_calendar_day_witness:
  "isOverdue ex_zone 1706788800000 (Some (due ex_A)) (stage ex_A) \<and>
   \<not> isOverdue ex_zone 1706788800000 (Some (due ex_B)) (stage ex_B) \<and>
   \<not> isOverdue ex_zone 1706741999999 (Some ''2024-01-31'') ''Backlog'' \<and>
   isOverdue ex_zone 1706742000000 (Some ''2024-01-31'') ''Backlog'' \<and>
   isOverdue ex_zone 1706788800000 (Some ''2024-01-31'') ''Backlog'' \<and>
   isOverdue ex_zone 1706788800000 (Some ''+2020-01-01'') ''Backlog''"
proof -
  have z: "\<forall>t b. ex_zone t b = 3600000"
    by (simp add: ex_zone_def)
  have d: "Day (LocalTime ex_zone 1706742000000) = Day (LocalTime ex_zone 1706788800000)"
    by (simp add: Day_def LocalTime_def ex_zone_def msPerDay_def)
  have b: "\<bar>1706788800000\<bar> + msPerDay \<le> 8640000000000000"
    "\<bar>1706741999999\<bar> + msPerDay \<le> 8640000000000000"
    "\<bar>1706742000000\<bar> + msPerDay \<le> 8640000000000000"
    by (simp_all add: msPerDay_def)
  have p: "parseLocalDate ex_zone (Some ''2020-01-01'') = Some (TimeValue 1577833200000)"
    "parseLocalDate ex_zone (Some ''+2020-01-01'') = Some (TimeValue 1577833200000)"
    "parseLocalDate ex_zone (Some ''2024-01-31'') = Some (TimeValue 1706655600000)"
    by (simp_all add: parseLocalDate_examples TimeClip_def UTC_def ex_zone_def msPerDay_def)
  have l: "Day (LocalTime ex_zone 1577833200000) = 18262"
    "Day (LocalTime ex_zone 1706655600000) = 19753"
    "Day (LocalTime ex_zone 1706788800000) = 19754"
    "Day (LocalTime ex_zone 1706741999999) = 19753"
    "Day (LocalTime ex_zone 1706742000000) = 19754"
    by (simp_all add: Day_def LocalTime_def ex_zone_def msPerDay_def)
  note A = isOverdue_calendar_day [where tza = ex_zone and c = 3600000
      and now = 1706788800000 and dueStr = "Some ''2020-01-01''" and stg = "''Backlog''"]
  note B = isOverdue_calendar_day [where tza = ex_zone
      and now = 1706788800000 and dueStr = "Some ''2020-01-01''"]
  note C = isOverdue_calendar_day [where tza = ex_zone and c = 3600000
      and now = 1706741999999 and dueStr = "Some ''2024-01-31''" and stg = "''Backlog''"]
  note D = isOverdue_calendar_day [where tza = ex_zone and c = 3600000
      and now = 1706742000000 and now' = 1706788800000
      and dueStr = "Some ''2024-01-31''" and stg = "''Backlog''"]
  note E = isOverdue_calendar_day [where tza = ex_zone and c = 3600000
      and now = 1706788800000 and dueStr = "Some ''+2020-01-01''" and stg = "''Backlog''"]
  note days = conjunct2 [THEN conjunct2, THEN conjunct2, THEN conjunct2, THEN conjunct2, THEN mp]
  note same = conjunct2 [THEN conjunct2, THEN conjunct2, THEN conjunct2, THEN conjunct1, THEN mp]
  have 1: "isOverdue ex_zone 1706788800000 (Some ''2020-01-01'') ''Backlog''"
    using A [THEN days, OF conjI [OF z b(1)]] by (simp add: p l truthy_def)
  have 2: "\<not> isOverdue ex_zone 1706788800000 (Some ''2020-01-01'') ''Completed''"
    using B [THEN conjunct2, THEN conjunct2, THEN conjunct1] by simp
  have 3: "\<not> isOverdue ex_zone 1706741999999 (Some ''2024-01-31'') ''Backlog''"
    using C [THEN days, OF conjI [OF z b(2)]] by (simp add: p l truthy_def)
  have 4: "isOverdue ex_zone 1706742000000 (Some ''2024-01-31'') ''Backlog''"
    using D [THEN days, OF conjI [OF z b(3)]] by (simp add: p l truthy_def)
  have 5: "isOverdue ex_zone 1706788800000 (Some ''2024-01-31'') ''Backlog''"
    using D [THEN same, OF d] 4 by simp
  have 6: "isOverdue ex_zone 1706788800000 (Some ''+2020-01-01'') ''Backlog''"
    using E [THEN days, OF conjI [OF z b(1)]] by (simp add: p l truthy_def)
  from 1 2 3 4 5 6 show ?thesis
    by (simp add: ex_defs)
qed

text \<open>
  In Pacific/Apia the local day 30 December 2011 does not exist, and the date parsed from
  it is the midnight that starts 31 December: a task due on it is not overdue at noon of
  31 December and is overdue at noon of 1 January 2012.
\<close>

lemma isOverdue_skipped_day:
  "parseLocalDate ex_apia (Some ''2011-12-30'') = Some (TimeValue 1325239200000)"
  "setHours0 ex_apia (TimeValue 1325282400000) = TimeValue 1325239200000"
  "\<not> isOverdue ex_apia 1325282400000 (Some ''2011-12-30'') ''Backlog''"
  "isOverdue ex_apia 1325368800000 (Some ''2011-12-30'') ''Backlog''"
  by (simp_all add: isOverdue_def parseLocalDate_examples truthy_def dateLess_def setHours0_def
      TimeClip_def UTC_def LocalTime_def Day_def ex_apia_def msPerDay_def)

section \<open>Properties of the export\<close>

lemma split_append: "sep \<notin> set a \<Longrightarrow> split sep (a @ sep # b) = a # split sep b"
  by (induction a) auto

lemma split_first_piece:
  "sep \<notin> set a \<Longrightarrow> x \<noteq> sep \<Longrightarrow> \<exists>p ps. split sep (a @ x # b) = (a @ x # p) # ps"
proof (induction a)
  case Nil
  then show ?case by (cases "split sep b") auto
next
  case (Cons c a)
  then show ?case by auto
qed

text \<open>
  \<^verbatim>\<open>toISOString\<close> prints \<^verbatim>\<open>YYYY-MM-DDTHH:mm:ss.sssZ\<close>. Split at the hyphens, the third
  piece of such a string holds the letter \<^verbatim>\<open>T\<close>, so it is not a number and the date is
  invalid, in every time zone and every locale.
\<close>

lemma formatDate_ISO:
  assumes "CHR ''-'' \<notin> set y" and "CHR ''-'' \<notin> set m" and "CHR ''-'' \<notin> set d"
  shows "formatDate tza loc (Some (y @ ''-'' @ m @ ''-'' @ d @ ''T'' @ r)) = ''Invalid Date''"
proof -
  obtain p ps where p: "split (CHR ''-'') (d @ CHR ''T'' # r) = (d @ CHR ''T'' # p) # ps"
    using split_first_piece [OF assms(3), of "CHR ''T''" r] by auto
  have s: "split (CHR ''-'') (y @ ''-'' @ m @ ''-'' @ d @ ''T'' @ r)
      = y # m # (d @ CHR ''T'' # p) # ps"
    using split_append [OF assms(1)] split_append [OF assms(2)] p by simp
  have n: "Number (d @ CHR ''T'' # p) = NaN"
    by (rule Number_NaN [of "CHR ''T''"]) (simp_all add: isWhiteSpace_def hexValue_def)
  have "newDate tza a b NaN = InvalidDate" for a b
    by (simp add: newDate_def split: jsnum.splits)
  then show ?thesis
    using s n
    by (simp add: formatDate_def parseLocalDate_def Let_def piece_def toLocaleDateString_def)
qed

text \<open>What the export does as the specification says: the columns and their order, the
  empty cell for a task that is not completed, and the formatted due date.\<close>

lemma exportRow_columns:
  "map fst (exportRow tza loc x) = [''Task Name'', ''Category'', ''Priority'', ''Stage'',
     ''Due Date'', ''Notes'', ''Created'', ''Completed'']"
  by (simp add: exportRow_def)

lemma exportRow_not_completed:
  "completedAt x = None \<Longrightarrow> map_of (exportRow tza loc x) ''Completed'' = Some []"
  by (simp add: exportRow_def formatDate_def)

lemma exportRow_due_example:
  "map_of (exportRow tza loc ex_A) ''Due Date''
     = Some (toLocaleDateString loc (TimeClip (UTC tza (18262 * msPerDay))))"
  "map_of (exportRow (\<lambda>t isUTC. 0) loc ex_A) ''Due Date'' = Some (loc (18262 * msPerDay))"
  using parseLocalDate_examples(1)
  by (simp_all add: exportRow_def formatDate_def toLocaleDateString_def ex_defs TimeClip_def
      UTC_def msPerDay_def)

text \<open>
  Claim C9. The export projects each task into the columns \<^verbatim>\<open>Task Name\<close>, \<^verbatim>\<open>Category\<close>,
  \<^verbatim>\<open>Priority\<close>, \<^verbatim>\<open>Stage\<close>, \<^verbatim>\<open>Due Date\<close>, \<^verbatim>\<open>Notes\<close>, \<^verbatim>\<open>Created\<close>, \<^verbatim>\<open>Completed\<close>, with
  formatted dates in \<^verbatim>\<open>Due Date\<close>, \<^verbatim>\<open>Created\<close> and \<^verbatim>\<open>Completed\<close>. The code does not do this
  for \<^verbatim>\<open>Created\<close> and \<^verbatim>\<open>Completed\<close>: \<^verbatim>\<open>formatDate\<close> parses a \<^verbatim>\<open>YYYY-MM-DD\<close> date, and
  \<^verbatim>\<open>createdAt\<close> and \<^verbatim>\<open>completedAt\<close> are \<^verbatim>\<open>toISOString\<close> timestamps. On the board of the two
  example tasks the export of all tasks holds \<^verbatim>\<open>Invalid Date\<close> in \<^verbatim>\<open>Created\<close> of both rows
  and in \<^verbatim>\<open>Completed\<close> of the completed task, in every time zone and every locale, beside
  the due date, the local midnight of 1 January 2020, as the locale prints it.
\<close>

theorem exportToExcel_Created_Invalid_Date:
  "map (\<lambda>r. (map_of r ''Due Date'', map_of r ''Created'', map_of r ''Completed''))
     (sheetRows (the (snd (exportToExcel (\<lambda>w. True) tza loc ex_now ''all'' ex_board))))
   = [(Some (toLocaleDateString loc (TimeClip (UTC tza (18262 * msPerDay)))),
       Some ''Invalid Date'', Some []),
      (Some (toLocaleDateString loc (TimeClip (UTC tza (18262 * msPerDay)))),
       Some ''Invalid Date'', Some ''Invalid Date'')]"
proof -
  have c: "formatDate tza loc (Some ''2024-01-15T10:30:00.000Z'') = ''Invalid Date''"
    "formatDate tza loc (Some ''2024-01-16T08:00:00.000Z'') = ''Invalid Date''"
    "formatDate tza loc (Some ''2024-01-17T09:15:00.000Z'') = ''Invalid Date''"
    using formatDate_ISO [of "''2024''" "''01''" "''15''" tza loc "''10:30:00.000Z''"]
      formatDate_ISO [of "''2024''" "''01''" "''16''" tza loc "''08:00:00.000Z''"]
      formatDate_ISO [of "''2024''" "''01''" "''17''" tza loc "''09:15:00.000Z''"]
    by simp_all
  have d: "formatDate tza loc (Some ''2020-01-01'')
      = toLocaleDateString loc (TimeClip (UTC tza (18262 * msPerDay)))"
    using parseLocalDate_examples(1) by (simp add: formatDate_def)
  have n: "formatDate tza loc None = []"
    by (simp add: formatDate_def)
  show ?thesis
    by (simp add: exportToExcel_def Let_def exportRow_def ex_defs c d n)
qed

section \<open>Properties of the progress statistic\<close>

lemma double_pos:
  assumes "0 < x" and "pow2 e \<le> x" and "x < pow2 (e + 1)"
  shows "double x = of_int (roundTiesToEven (x / pow2 (e - 52))) * pow2 (e - 52)"
  using assms exponent_unique [OF assms] by (simp add: double_def Let_def)

text \<open>
  \<^verbatim>\<open>23 / 40\<close> is the double just below 0.575, and a hundred times that double is the double
  just below 57.5, which \<^verbatim>\<open>Math.round\<close> takes to 57.
\<close>

lemma double_23_40: "double (23 / 40) = 2589569785738035 / 4503599627370496"
proof -
  have r: "roundTiesToEven (23 / 40 / pow2 (- 1 - 52)) = 5179139571476070"
    by (rule roundTiesToEven_down) (simp_all add: pow2_def)
  have "double (23 / 40) = of_int (roundTiesToEven (23 / 40 / pow2 (- 1 - 52))) * pow2 (- 1 - 52)"
    by (rule double_pos) (simp_all add: pow2_def)
  also have "\<dots> = of_int 5179139571476070 * pow2 (- 1 - 52)"
    by (simp only: r)
  also have "\<dots> = 2589569785738035 / 4503599627370496"
    by (simp add: pow2_def)
  finally show ?thesis .
qed

lemma double_23_40_100:
  "double (2589569785738035 / 4503599627370496 * 100) = 8092405580431359 / 140737488355328"
proof -
  let ?x = "2589569785738035 / 4503599627370496 * 100 :: rat"
  have r: "roundTiesToEven (?x / pow2 (5 - 52)) = 8092405580431359"
    by (rule roundTiesToEven_down) (simp_all add: pow2_def)
  have "double ?x = of_int (roundTiesToEven (?x / pow2 (5 - 52))) * pow2 (5 - 52)"
    by (rule double_pos) (simp_all add: pow2_def)
  also have "\<dots> = of_int 8092405580431359 * pow2 (5 - 52)"
    by (simp only: r)
  also have "\<dots> = 8092405580431359 / 140737488355328"
    by (simp add: pow2_def)
  finally show ?thesis .
qed

lemma MathRound_23_40: "MathRound (8092405580431359 / 140737488355328) = 57"
  unfolding MathRound_def by (rule floor_unique) simp_all

lemma double_1_3: "double (1 / 3) = 6004799503160661 / 18014398509481984"
proof -
  have r: "roundTiesToEven (1 / 3 / pow2 (- 2 - 52)) = 6004799503160661"
    by (rule roundTiesToEven_down) (simp_all add: pow2_def)
  have "double (1 / 3) = of_int (roundTiesToEven (1 / 3 / pow2 (- 2 - 52))) * pow2 (- 2 - 52)"
    by (rule double_pos) (simp_all add: pow2_def)
  also have "\<dots> = of_int 6004799503160661 * pow2 (- 2 - 52)"
    by (simp only: r)
  also have "\<dots> = 6004799503160661 / 18014398509481984"
    by (simp add: pow2_def)
  finally show ?thesis .
qed

lemma double_1_3_100:
  "double (6004799503160661 / 18014398509481984 * 100) = 2345624805922133 / 70368744177664"
proof -
  let ?x = "6004799503160661 / 18014398509481984 * 100 :: rat"
  have r: "roundTiesToEven (?x / pow2 (5 - 52)) = 4691249611844266"
    by (rule roundTiesToEven_down) (simp_all add: pow2_def)
  have "double ?x = of_int (roundTiesToEven (?x / pow2 (5 - 52))) * pow2 (5 - 52)"
    by (rule double_pos) (simp_all add: pow2_def)
  also have "\<dots> = of_int 4691249611844266 * pow2 (5 - 52)"
    by (simp only: r)
  also have "\<dots> = 2345624805922133 / 70368744177664"
    by (simp add: pow2_def)
  finally show ?thesis .
qed

text \<open>The two examples of the specification: the empty board, and one task of three
  completed.\<close>

lemma pct_examples: "pct [] = 0" "pct [ex_B, ex_A, ex_A] = 33"
proof -
  show "pct [] = 0"
    by (simp add: pct_def)
  have "pct [ex_B, ex_A, ex_A] = MathRound (double (double (1 / 3) * 100))"
    by (simp add: pct_def ex_defs)
  also have "\<dots> = MathRound (2345624805922133 / 70368744177664)"
    by (simp only: double_1_3 double_1_3_100)
  also have "\<dots> = 33"
    unfolding MathRound_def by (rule floor_unique) simp_all
  finally show "pct [ex_B, ex_A, ex_A] = 33" .
qed

text \<open>
  Claim C8. The percentage is \<open>round (100 * c / n)\<close> for \<open>c\<close> completed tasks of \<open>n\<close>. The
  code computes \<^verbatim>\<open>Math.round((c / n) * 100)\<close> in double precision, dividing first. With 23
  completed tasks of 40 the exact percentage is 57.5, which rounds to 58; the quotient
  \<^verbatim>\<open>23 / 40\<close> is rounded down to a double, its product with 100 is the double below
  57.5, and the code shows 57.
\<close>

theorem pct_23_of_40:
  "length (replicate 23 ex_B @ replicate 17 ex_A) = 40 \<and>
   length (filter (\<lambda>x. stage x = ''Completed'') (replicate 23 ex_B @ replicate 17 ex_A)) = 23 \<and>
   pct (replicate 23 ex_B @ replicate 17 ex_A) = 57 \<and>
   round (100 * 23 / 40 :: rat) = 58"
proof -
  have c: "length (filter (\<lambda>x. stage x = ''Completed'') (replicate 23 ex_B @ replicate 17 ex_A)) = 23"
    by (simp add: ex_defs)
  have "pct (replicate 23 ex_B @ replicate 17 ex_A) = MathRound (double (double (23 / 40) * 100))"
    unfolding pct_def Let_def c by simp
  also have "\<dots> = 57"
    by (simp only: double_23_40 double_23_40_100 MathRound_23_40)
  finally have "pct (replicate 23 ex_B @ replicate 17 ex_A) = 57" .
  moreover have "round (100 * 23 / 40 :: rat) = 58"
    by (simp add: round_def)
  ultimately show ?thesis
    using c by simp
qed

section \<open>Properties of persistence\<close>

subsection \<open>Parsing what was printed\<close>

lemma andThen_Parsed [simp]: "andThen (Parsed x) f = f x"
  by (simp add: andThen_def)

lemma consChar_Parsed [simp]: "consChar c (Parsed (s, r)) = Parsed (c # s, r)"
  by (simp add: consChar_def)

lemma hexValue_hexDigit: "d < 16 \<Longrightarrow> hexValue (hexDigit d) = Some d"
proof -
  assume "d < 16"
  then have "d = 0 \<or> d = 1 \<or> d = 2 \<or> d = 3 \<or> d = 4 \<or> d = 5 \<or> d = 6 \<or> d = 7 \<or>
      d = 8 \<or> d = 9 \<or> d = 10 \<or> d = 11 \<or> d = 12 \<or> d = 13 \<or> d = 14 \<or> d = 15"
    by arith
  then show ?thesis
    by (elim disjE) (simp_all add: hexValue_def hexDigit_def)
qed

lemma hexValue_0: "hexValue (CHR ''0'') = Some 0"
  by (simp add: hexValue_def)

lemma parseString_quoteChar: "parseString (quoteChar c @ xs) = consChar c (parseString xs)"
proof -
  let ?n = "of_char c :: nat"
  have c: "char_of ?n = c" by simp
  consider "?n = 8" | "?n = 9" | "?n = 10" | "?n = 12" | "?n = 13" | "c = dq" | "c = bs"
    | "?n < 32" "?n \<noteq> 8" "?n \<noteq> 9" "?n \<noteq> 10" "?n \<noteq> 12" "?n \<noteq> 13"
    | "32 \<le> ?n" "c \<noteq> dq" "c \<noteq> bs"
    by linarith
  then show ?thesis
  proof cases
    case 1
    then have "quoteChar c = [bs, CHR ''b'']" by (simp add: quoteChar_def)
    moreover have "char_of (8::nat) = c" using 1 c by simp
    ultimately show ?thesis by (simp add: unescape_def dq_def bs_def)
  next
    case 2
    then have "quoteChar c = [bs, CHR ''t'']" by (simp add: quoteChar_def)
    moreover have "char_of (9::nat) = c" using 2 c by simp
    ultimately show ?thesis by (simp add: unescape_def dq_def bs_def)
  next
    case 3
    then have "quoteChar c = [bs, CHR ''n'']" by (simp add: quoteChar_def)
    moreover have "char_of (10::nat) = c" using 3 c by simp
    ultimately show ?thesis by (simp add: unescape_def dq_def bs_def)
  next
    case 4
    then have "quoteChar c = [bs, CHR ''f'']" by (simp add: quoteChar_def)
    moreover have "char_of (12::nat) = c" using 4 c by simp
    ultimately show ?thesis by (simp add: unescape_def dq_def bs_def)
  next
    case 5
    then have "quoteChar c = [bs, CHR ''r'']" by (simp add: quoteChar_def)
    moreover have "char_of (13::nat) = c" using 5 c by simp
    ultimately show ?thesis by (simp add: unescape_def dq_def bs_def)
  next
    case 6
    then have "quoteChar c = [bs, dq]" by (simp add: quoteChar_def dq_def)
    then show ?thesis using 6 by (simp add: unescape_def dq_def bs_def)
  next
    case 7
    then have "quoteChar c = [bs, bs]" by (simp add: quoteChar_def dq_def bs_def)
    then show ?thesis using 7 by (simp add: unescape_def dq_def bs_def)
  next
    case 8
    then have "c \<noteq> dq" "c \<noteq> bs" by (auto simp add: dq_def bs_def)
    with 8 have q: "quoteChar c =
        [bs, CHR ''u'', CHR ''0'', CHR ''0'', hexDigit (?n div 16), hexDigit (?n mod 16)]"
      by (simp add: quoteChar_def Let_def)
    have h: "hexValue (hexDigit (?n div 16)) = Some (?n div 16)"
      "hexValue (hexDigit (?n mod 16)) = Some (?n mod 16)"
      using 8(1) by (simp_all add: hexValue_hexDigit)
    have "char_of (16 * (?n div 16) + ?n mod 16) = c"
      using c by simp
    then show ?thesis
      by (simp add: q h hexValue_0 bs_def dq_def)
  next
    case 9
    then have "quoteChar c = [c]" by (simp add: quoteChar_def)
    then show ?thesis using 9 by simp
  qed
qed

lemma parseString_quote:
  "parseString (concat (map quoteChar s) @ dq # rest) = Parsed (s, rest)"
  by (induction s) (simp_all add: parseString_quoteChar)

lemma update_fresh: "k \<notin> fst ` set al \<Longrightarrow> AList.update k v al = al @ [(k, v)]"
  by (induction al) auto

lemma foldl_update_distinct:
  "distinct (map fst (acc @ ms)) \<Longrightarrow>
   foldl (\<lambda>acc (k, v). AList.update k v acc) acc ms = acc @ ms"
proof (induction ms arbitrary: acc)
  case Nil
  then show ?case by simp
next
  case (Cons m ms)
  obtain k v where m: "m = (k, v)" by (cases m)
  from Cons.prems have "k \<notin> fst ` set acc" by (auto simp add: m)
  then have u: "AList.update k v acc = acc @ [(k, v)]" by (rule update_fresh)
  from Cons.prems have "distinct (map fst ((acc @ [(k, v)]) @ ms))" by (simp add: m)
  from Cons.IH [OF this] show ?case by (simp add: m u)
qed

lemma defineAll_distinct: "distinct (map fst ms) \<Longrightarrow> defineAll ms = ms"
  using foldl_update_distinct [of "[]" ms] by (simp add: defineAll_def)

lemma skipWs_quote: "skipWs (quoteJSONString k @ r) = quoteJSONString k @ r"
  by (simp add: skipWs_def quoteJSONString_def isJsonWs_def dq_def)

lemma stringify_first:
  "\<exists>c cs. stringify j = c # cs \<and> \<not> isJsonWs c \<and> c \<noteq> CHR '']'' \<and> c \<noteq> CHR ''}'' \<and> c \<noteq> CHR '',''"
  by (cases j) (auto simp add: quoteJSONString_def isJsonWs_def dq_def)

lemma stringifyElements_first:
  "xs \<noteq> [] \<Longrightarrow> \<exists>c cs. stringifyElements xs = c # cs \<and> \<not> isJsonWs c \<and> c \<noteq> CHR '']''"
proof (cases xs)
  case Nil
  then show "xs \<noteq> [] \<Longrightarrow> ?thesis" by simp
next
  case (Cons x ys)
  obtain c cs where "stringify x = c # cs" "\<not> isJsonWs c" "c \<noteq> CHR '']''"
    using stringify_first [of x] by auto
  then show ?thesis using Cons by (cases ys) auto
qed

lemma stringifyMembers_first:
  "ms \<noteq> [] \<Longrightarrow> \<exists>cs. stringifyMembers ms = dq # cs"
proof (cases ms)
  case Nil
  then show "ms \<noteq> [] \<Longrightarrow> ?thesis" by simp
next
  case (Cons m ms')
  obtain k v where "m = (k, v)" by (cases m)
  then show ?thesis using Cons by (cases ms') (auto simp add: quoteJSONString_def)
qed

lemma skipWs_nonws: "\<not> isJsonWs c \<Longrightarrow> skipWs (c # cs) = c # cs"
  by (simp add: skipWs_def)

lemma skipWs_stringify: "skipWs (stringify j @ r) = stringify j @ r"
  using stringify_first [of j] by (auto simp add: skipWs_nonws)

lemma roundtrip_mutual:
  "plain j \<longrightarrow> (\<forall>n rest. length (stringify j) < n \<longrightarrow>
      parseValue n (stringify j @ rest) = Parsed (j, rest))"
  "xs \<noteq> [] \<longrightarrow> plainElements xs \<longrightarrow> (\<forall>n rest. length (stringifyElements xs) + 1 < n \<longrightarrow>
      parseElements n (stringifyElements xs @ CHR '']'' # rest) = Parsed (xs, rest))"
  "ms \<noteq> [] \<longrightarrow> plainMembers ms \<longrightarrow> (\<forall>n rest. length (stringifyMembers ms) + 1 < n \<longrightarrow>
      parseMembers n (stringifyMembers ms @ CHR ''}'' # rest) = Parsed (ms, rest))"
proof (induction j and xs and ms rule: stringify_stringifyElements_stringifyMembers.induct)
  case 1
  show ?case
  proof (intro impI allI)
    fix n rest assume "length (stringify JNull) < n"
    then obtain m where "n = Suc m" by (cases n) auto
    then show "parseValue n (stringify JNull @ rest) = Parsed (JNull, rest)"
      by (simp add: skipWs_def isJsonWs_def dq_def expectWord_def)
  qed
next
  case (2 b)
  show ?case
  proof (intro impI allI)
    fix n rest assume "length (stringify (JBool b)) < n"
    then obtain m where "n = Suc m" by (cases n) auto
    then show "parseValue n (stringify (JBool b) @ rest) = Parsed (JBool b, rest)"
      by (simp add: skipWs_def isJsonWs_def dq_def expectWord_def)
  qed
next
  case (3 s)
  show ?case
  proof (intro impI allI)
    fix n rest assume "length (stringify (JString s)) < n"
    then obtain m where "n = Suc m" by (cases n) auto
    then show "parseValue n (stringify (JString s) @ rest) = Parsed (JString s, rest)"
      using parseString_quote [of s rest]
      by (simp add: skipWs_def isJsonWs_def dq_def quoteJSONString_def)
  qed
next
  case (4 xs)
  show ?case
  proof (intro impI allI)
    fix n rest assume w: "plain (JArray xs)" and l: "length (stringify (JArray xs)) < n"
    then obtain m where n: "n = Suc m" by (cases n) auto
    show "parseValue n (stringify (JArray xs) @ rest) = Parsed (JArray xs, rest)"
    proof (cases "xs = []")
      case True
      then show ?thesis using n by (simp add: skipWs_def isJsonWs_def dq_def)
    next
      case False
      then obtain c cs where c: "stringifyElements xs = c # cs" "\<not> isJsonWs c" "c \<noteq> CHR '']''"
        using stringifyElements_first by blast
      from l n have "length (stringifyElements xs) + 1 < m" by simp
      with 4 False w have "parseElements m (stringifyElements xs @ CHR '']'' # rest) = Parsed (xs, rest)"
        by simp
      then show ?thesis using n c
        by (simp add: skipWs_def isJsonWs_def dq_def)
    qed
  qed
next
  case (5 ms)
  show ?case
  proof (intro impI allI)
    fix n rest assume w: "plain (JObject ms)" and l: "length (stringify (JObject ms)) < n"
    then obtain m where n: "n = Suc m" by (cases n) auto
    show "parseValue n (stringify (JObject ms) @ rest) = Parsed (JObject ms, rest)"
    proof (cases "ms = []")
      case True
      then show ?thesis using n by (simp add: skipWs_def isJsonWs_def dq_def)
    next
      case False
      then obtain cs where c: "stringifyMembers ms = dq # cs"
        using stringifyMembers_first by blast
      from l n have "length (stringifyMembers ms) + 1 < m" by simp
      with 5 False w have "parseMembers m (stringifyMembers ms @ CHR ''}'' # rest) = Parsed (ms, rest)"
        by simp
      then show ?thesis using n c w
        by (simp add: skipWs_def isJsonWs_def dq_def makeObject_def defineAll_distinct)
    qed
  qed
next
  case 6
  show ?case by simp
next
  case (7 x)
  show ?case
  proof (intro impI allI)
    fix n rest assume w: "plainElements [x]" and l: "length (stringifyElements [x]) + 1 < n"
    then obtain m where n: "n = Suc m" by (cases n) auto
    from l n have "length (stringify x) < m" by simp
    with 7 w have "parseValue m (stringify x @ CHR '']'' # rest) = Parsed (x, CHR '']'' # rest)"
      by simp
    then show "parseElements n (stringifyElements [x] @ CHR '']'' # rest) = Parsed ([x], rest)"
      using n by (simp add: skipWs_def isJsonWs_def)
  qed
next
  case (8 x y ys)
  show ?case
  proof (intro impI allI)
    fix n rest assume w: "plainElements (x # y # ys)"
      and l: "length (stringifyElements (x # y # ys)) + 1 < n"
    then obtain m where n: "n = Suc m" by (cases n) auto
    from l n have "length (stringify x) < m" by simp
    with 8 w have 1: "parseValue m (stringify x @ CHR '','' # stringifyElements (y # ys) @ CHR '']'' # rest)
        = Parsed (x, CHR '','' # stringifyElements (y # ys) @ CHR '']'' # rest)"
      by simp
    from l n have "length (stringifyElements (y # ys)) + 1 < m" by simp
    with 8 w have 2: "parseElements m (stringifyElements (y # ys) @ CHR '']'' # rest) = Parsed (y # ys, rest)"
      by simp
    show "parseElements n (stringifyElements (x # y # ys) @ CHR '']'' # rest) = Parsed (x # y # ys, rest)"
      using n 1 2 by (simp add: skipWs_def isJsonWs_def)
  qed
next
  case 9
  show ?case by simp
next
  case (10 k v)
  show ?case
  proof (intro impI allI)
    fix n rest assume w: "plainMembers [(k, v)]" and l: "length (stringifyMembers [(k, v)]) + 1 < n"
    then obtain m where n: "n = Suc m" by (cases n) auto
    from l n have "length (stringify v) < m" by simp
    with 10 w have 1: "parseValue m (stringify v @ CHR ''}'' # rest) = Parsed (v, CHR ''}'' # rest)"
      by simp
    have 2: "parseString (concat (map quoteChar k) @ dq # CHR '':'' # stringify v @ CHR ''}'' # rest)
        = Parsed (k, CHR '':'' # stringify v @ CHR ''}'' # rest)"
      by (rule parseString_quote)
    show "parseMembers n (stringifyMembers [(k, v)] @ CHR ''}'' # rest) = Parsed ([(k, v)], rest)"
      using n 1 2 by (simp add: quoteJSONString_def skipWs_def isJsonWs_def dq_def)
  qed
next
  case (11 k v m' ms)
  show ?case
  proof (intro impI allI)
    fix n rest assume w: "plainMembers ((k, v) # m' # ms)"
      and l: "length (stringifyMembers ((k, v) # m' # ms)) + 1 < n"
    then obtain m where n: "n = Suc m" by (cases n) auto
    let ?tail = "CHR '','' # stringifyMembers (m' # ms) @ CHR ''}'' # rest"
    from l n have "length (stringify v) < m" by simp
    with 11 w have 1: "parseValue m (stringify v @ ?tail) = Parsed (v, ?tail)"
      by simp
    from l n have "length (stringifyMembers (m' # ms)) + 1 < m" by simp
    with 11 w have 3: "parseMembers m (stringifyMembers (m' # ms) @ CHR ''}'' # rest) = Parsed (m' # ms, rest)"
      by simp
    have 2: "parseString (concat (map quoteChar k) @ dq # CHR '':'' # stringify v @ ?tail)
        = Parsed (k, CHR '':'' # stringify v @ ?tail)"
      by (rule parseString_quote)
    show "parseMembers n (stringifyMembers ((k, v) # m' # ms) @ CHR ''}'' # rest)
        = Parsed ((k, v) # m' # ms, rest)"
      using n 1 2 3 by (simp add: quoteJSONString_def skipWs_def isJsonWs_def dq_def)
  qed
qed

text \<open>\<^verbatim>\<open>JSON.parse\<close> returns the value that \<^verbatim>\<open>JSON.stringify\<close> printed.\<close>

lemma parse_stringify: "plain j \<Longrightarrow> parse (stringify j) = Parsed j"
proof -
  assume "plain j"
  with roundtrip_mutual(1) [of j]
  have "\<forall>n rest. length (stringify j) < n \<longrightarrow> parseValue n (stringify j @ rest) = Parsed (j, rest)"
    by blast
  from this [rule_format, of "2 * length (stringify j) + 1" "[]"]
  have "parseValue (2 * length (stringify j) + 1) (stringify j) = Parsed (j, [])"
    by simp
  then show ?thesis
    by (simp add: parse_def skipWs_def del: parseValue.simps)
qed

subsection \<open>The descent has steps enough\<close>

text \<open>
  Every call of the descent that returns a value has read at least one character, so a
  bound of twice the length of the text and one more is never used up.
\<close>

lemma skipWs_length: "length (skipWs cs) \<le> length cs"
  by (simp add: skipWs_def length_dropWhile_le)

lemma skipWs_Cons_length: "skipWs cs = c # r \<Longrightarrow> length r < length cs"
  using skipWs_length [of cs] by simp

lemma consChar_OutOfSteps: "consChar c r = OutOfSteps \<longleftrightarrow> r = OutOfSteps"
  by (cases r) (auto simp add: consChar_def)

lemma consChar_eq_Parsed:
  "consChar c r = Parsed (s, rest) \<longleftrightarrow> (\<exists>s'. r = Parsed (s', rest) \<and> s = c # s')"
  by (cases r) (auto simp add: consChar_def)

lemma parseString_unfold:
  "parseString (c # cs) = Parsed ([], cs) \<or>
   parseString (c # cs) = SyntaxError \<or>
   parseString (c # cs) = Beyond \<or>
   (\<exists>ch r. length r \<le> length cs \<and> parseString (c # cs) = consChar ch (parseString r))"
proof -
  have step: ?thesis if "length r \<le> length cs" "parseString (c # cs) = consChar ch (parseString r)"
    for ch r
    using that by blast
  show ?thesis
  proof (cases "c = dq")
    case True
    then show ?thesis by simp
  next
    case notdq: False
    show ?thesis
    proof (cases "c = bs")
      case False
      show ?thesis
      proof (cases "(of_char c :: nat) < 32")
        case True
        then show ?thesis using False notdq by simp
      next
        case ge: False
        show ?thesis
          by (rule step [of cs c]) (use False notdq ge in simp_all)
      qed
    next
      case True
      show ?thesis
      proof (cases cs)
        case Nil
        then show ?thesis using True notdq by simp
      next
        case (Cons e r)
        show ?thesis
        proof (cases "e = CHR ''u''")
          case False
          show ?thesis
          proof (cases "unescape e")
            case None
            then show ?thesis using True notdq Cons False by simp
          next
            case (Some ch)
            show ?thesis
              by (rule step [of r ch]) (use True notdq Cons False Some in simp_all)
          qed
        next
          case u: True
          show ?thesis
          proof (cases "\<exists>a b c' d r'. r = a # b # c' # d # r'")
            case False
            then have "parseString (c # cs) = SyntaxError"
              using True notdq Cons u by (auto split: list.splits)
            then show ?thesis by simp
          next
            case ex: True
            then obtain a b c' d r' where r: "r = a # b # c' # d # r'" by blast
            show ?thesis
            proof (cases "\<exists>h1 h0. hexValue a = Some 0 \<and> hexValue b = Some 0 \<and>
                hexValue c' = Some h1 \<and> hexValue d = Some h0")
              case True
              then obtain h1 h0 where h: "hexValue a = Some 0" "hexValue b = Some 0"
                  "hexValue c' = Some h1" "hexValue d = Some h0"
                by blast
              show ?thesis
                by (rule step [of r' "char_of (16 * h1 + h0)"])
                  (use \<open>c = bs\<close> notdq Cons u r h in simp_all)
            next
              case False
              then have "parseString (c # cs) = SyntaxError \<or> parseString (c # cs) = Beyond"
                using \<open>c = bs\<close> notdq Cons u r by (auto split: option.splits)
              then show ?thesis by blast
            qed
          qed
        qed
      qed
    qed
  qed
qed

declare parseString.simps [simp del]

lemma parseString_steps: "parseString cs \<noteq> OutOfSteps"
proof (induction cs rule: length_induct)
  case (1 cs)
  show ?case
  proof (cases cs)
    case Nil
    then show ?thesis by (simp add: parseString.simps(1))
  next
    case (Cons c cs')
    from parseString_unfold [of c cs'] 1 Cons show ?thesis
      by (auto simp add: consChar_OutOfSteps)
  qed
qed

lemma parseString_consumes: "parseString cs = Parsed (s, r) \<Longrightarrow> length r < length cs"
proof (induction cs arbitrary: s rule: length_induct)
  case (1 cs)
  show ?case
  proof (cases cs)
    case Nil
    then show ?thesis using 1(2) by (simp add: parseString.simps(1))
  next
    case (Cons c cs')
    from parseString_unfold [of c cs']
    consider "parseString (c # cs') = Parsed ([], cs')"
      | "parseString (c # cs') = SyntaxError" | "parseString (c # cs') = Beyond"
      | ch r' where "length r' \<le> length cs'" "parseString (c # cs') = consChar ch (parseString r')"
      by blast
    then show ?thesis
    proof cases
      case 1
      then show ?thesis using \<open>parseString cs = Parsed (s, r)\<close> Cons by simp
    next
      case 2
      then show ?thesis using \<open>parseString cs = Parsed (s, r)\<close> Cons by simp
    next
      case 3
      then show ?thesis using \<open>parseString cs = Parsed (s, r)\<close> Cons by simp
    next
      case 4
      with \<open>parseString cs = Parsed (s, r)\<close> Cons
      obtain s' where p: "parseString r' = Parsed (s', r)"
        by (auto simp add: consChar_eq_Parsed)
      have "length r' < length cs" using 4(1) Cons by simp
      with 1(1) p have "length r < length r'" by blast
      then show ?thesis using 4(1) Cons by simp
    qed
  qed
qed

lemma andThen_eq_Parsed:
  "andThen r f = Parsed y \<longleftrightarrow> (\<exists>x. r = Parsed x \<and> f x = Parsed y)"
  by (cases r) (simp_all add: andThen_def)

lemma andThen_eq_OutOfSteps:
  "andThen r f = OutOfSteps \<longleftrightarrow> r = OutOfSteps \<or> (\<exists>x. r = Parsed x \<and> f x = OutOfSteps)"
  by (cases r) (simp_all add: andThen_def)

lemma expectWord_consumes: "expectWord w v r = Parsed (j, r') \<Longrightarrow> length r' \<le> length r"
  by (auto simp add: expectWord_def split: if_splits)

lemma makeObject_Parsed: "makeObject (ms, r) = Parsed (j, r') \<Longrightarrow> r' = r"
  by (auto simp add: makeObject_def split: if_splits)

lemma descent_consumes:
  "(\<forall>cs j r. parseValue n cs = Parsed (j, r) \<longrightarrow> length r < length cs) \<and>
   (\<forall>cs xs r. parseElements n cs = Parsed (xs, r) \<longrightarrow> length r < length cs) \<and>
   (\<forall>cs ms r. parseMembers n cs = Parsed (ms, r) \<longrightarrow> length r < length cs)"
proof (induction n)
  case 0
  show ?case by simp
next
  case (Suc n)
  then have V: "\<And>cs j r. parseValue n cs = Parsed (j, r) \<Longrightarrow> length r < length cs"
    and E: "\<And>cs xs r. parseElements n cs = Parsed (xs, r) \<Longrightarrow> length r < length cs"
    and M: "\<And>cs ms r. parseMembers n cs = Parsed (ms, r) \<Longrightarrow> length r < length cs"
    by blast+
  have 1: "length r < length cs" if p: "parseValue (Suc n) cs = Parsed (j, r)" for cs j r
  proof -
    from p obtain c r0 where s: "skipWs cs = c # r0"
      by (cases "skipWs cs") auto
    then have l0: "length r0 < length cs" by (rule skipWs_Cons_length)
    consider "c = CHR ''{''" | "c = CHR ''[''" | "c = dq"
      | "c \<noteq> CHR ''{''" "c \<noteq> CHR ''[''" "c \<noteq> dq"
      by blast
    then show ?thesis
    proof cases
      case 1
      with p s obtain c' r' where s': "skipWs r0 = c' # r'"
        by (cases "skipWs r0") auto
      then have l1: "length r' < length r0" by (rule skipWs_Cons_length)
      show ?thesis
      proof (cases "c' = CHR ''}''")
        case True
        with p s 1 s' have "r = r'" by simp
        then show ?thesis using l0 l1 by simp
      next
        case False
        with p s 1 s' obtain ms r'' where "parseMembers n (c' # r') = Parsed (ms, r'')"
            "makeObject (ms, r'') = Parsed (j, r)"
          by (auto simp add: andThen_eq_Parsed)
        then have "length r < length (c' # r')" using M makeObject_Parsed by blast
        then show ?thesis using l0 l1 by simp
      qed
    next
      case 2
      then have ne: "c \<noteq> CHR ''{''" by simp
      with p s 2 obtain c' r' where s': "skipWs r0 = c' # r'"
        by (cases "skipWs r0") auto
      then have l1: "length r' < length r0" by (rule skipWs_Cons_length)
      show ?thesis
      proof (cases "c' = CHR '']''")
        case True
        with p s 2 ne s' have "r = r'" by simp
        then show ?thesis using l0 l1 by simp
      next
        case False
        with p s 2 ne s' obtain xs where "parseElements n (c' # r') = Parsed (xs, r)"
          by (auto simp add: andThen_eq_Parsed)
        then have "length r < length (c' # r')" using E by blast
        then show ?thesis using l0 l1 by simp
      qed
    next
      case 3
      then have "c \<noteq> CHR ''{''" "c \<noteq> CHR ''[''" by (simp_all add: dq_def)
      with p s 3 obtain s' where "parseString r0 = Parsed (s', r)"
        by (auto simp add: andThen_eq_Parsed)
      then have "length r < length r0" by (rule parseString_consumes)
      then show ?thesis using l0 by simp
    next
      case 4
      with p s have "length r \<le> length r0"
        by (auto dest: expectWord_consumes split: if_splits)
      then show ?thesis using l0 by simp
    qed
  qed
  have 2: "length r < length cs" if p: "parseElements (Suc n) cs = Parsed (xs, r)" for cs xs r
  proof -
    from p obtain v r1 where v: "parseValue n cs = Parsed (v, r1)"
      by (auto simp add: andThen_eq_Parsed)
    then have l1: "length r1 < length cs" by (rule V)
    from p v obtain c r2 where s: "skipWs r1 = c # r2"
      by (cases "skipWs r1") auto
    then have l2: "length r2 < length r1" by (rule skipWs_Cons_length)
    show ?thesis
    proof (cases "c = CHR '',''")
      case True
      with p v s obtain vs where "parseElements n r2 = Parsed (vs, r)"
        by (auto simp add: andThen_eq_Parsed)
      then have "length r < length r2" by (rule E)
      then show ?thesis using l1 l2 by simp
    next
      case False
      with p v s have "r = r2" by (auto split: if_splits)
      then show ?thesis using l1 l2 by simp
    qed
  qed
  have 3: "length r < length cs" if p: "parseMembers (Suc n) cs = Parsed (ms, r)" for cs ms r
  proof -
    from p obtain c r0 where s0: "skipWs cs = c # r0"
      by (cases "skipWs cs") auto
    then have l0: "length r0 < length cs" by (rule skipWs_Cons_length)
    from p s0 have c: "c = dq" by (auto split: if_splits)
    with p s0 obtain k r1 where k: "parseString r0 = Parsed (k, r1)"
      by (auto simp add: andThen_eq_Parsed)
    then have l1: "length r1 < length r0" by (rule parseString_consumes)
    from p s0 c k obtain c1 r2 where s1: "skipWs r1 = c1 # r2"
      by (cases "skipWs r1") auto
    then have l2: "length r2 < length r1" by (rule skipWs_Cons_length)
    from p s0 c k s1 have c1: "c1 = CHR '':''" by (auto split: if_splits)
    with p s0 c k s1 obtain v r3 where v: "parseValue n r2 = Parsed (v, r3)"
      by (auto simp add: andThen_eq_Parsed)
    then have l3: "length r3 < length r2" by (rule V)
    from p s0 c k s1 c1 v obtain c3 r4 where s3: "skipWs r3 = c3 # r4"
      by (cases "skipWs r3") auto
    then have l4: "length r4 < length r3" by (rule skipWs_Cons_length)
    show ?thesis
    proof (cases "c3 = CHR '',''")
      case True
      with p s0 c k s1 c1 v s3 obtain ms' where "parseMembers n r4 = Parsed (ms', r)"
        by (auto simp add: andThen_eq_Parsed)
      then have "length r < length r4" by (rule M)
      then show ?thesis using l0 l1 l2 l3 l4 by simp
    next
      case False
      with p s0 c k s1 c1 v s3 have "r = r4" by (auto split: if_splits)
      then show ?thesis using l0 l1 l2 l3 l4 by simp
    qed
  qed
  from 1 2 3 show ?case by blast
qed

lemma expectWord_steps: "expectWord w v r \<noteq> OutOfSteps"
  by (simp add: expectWord_def)

lemma makeObject_steps: "makeObject p \<noteq> OutOfSteps"
  by (simp add: makeObject_def split: prod.splits)

lemma descent_steps:
  "(\<forall>cs. 2 * length cs + 1 \<le> n \<longrightarrow> parseValue n cs \<noteq> OutOfSteps) \<and>
   (\<forall>cs. 2 * length cs + 2 \<le> n \<longrightarrow> parseElements n cs \<noteq> OutOfSteps) \<and>
   (\<forall>cs. 2 * length cs + 2 \<le> n \<longrightarrow> parseMembers n cs \<noteq> OutOfSteps)"
proof (induction n)
  case 0
  show ?case by simp
next
  case (Suc n)
  then have V: "\<And>cs. 2 * length cs + 1 \<le> n \<Longrightarrow> parseValue n cs \<noteq> OutOfSteps"
    and E: "\<And>cs. 2 * length cs + 2 \<le> n \<Longrightarrow> parseElements n cs \<noteq> OutOfSteps"
    and M: "\<And>cs. 2 * length cs + 2 \<le> n \<Longrightarrow> parseMembers n cs \<noteq> OutOfSteps"
    by blast+
  have 1: "parseValue (Suc n) cs \<noteq> OutOfSteps" if b: "2 * length cs + 1 \<le> Suc n" for cs
  proof (cases "skipWs cs")
    case Nil
    then show ?thesis by simp
  next
    case (Cons c r0)
    then have l0: "length r0 < length cs" by (rule skipWs_Cons_length)
    show ?thesis
    proof (cases "skipWs r0")
      case Nil
      then show ?thesis
        using Cons by (auto simp add: andThen_eq_OutOfSteps parseString_steps expectWord_steps)
    next
      case inner: (Cons c' r')
      then have "length r' < length r0" by (rule skipWs_Cons_length)
      with l0 b have "2 * length (c' # r') + 2 \<le> n" by simp
      then have "parseElements n (c' # r') \<noteq> OutOfSteps" "parseMembers n (c' # r') \<noteq> OutOfSteps"
        using E M by blast+
      then show ?thesis
        using Cons inner
        by (auto simp add: andThen_eq_OutOfSteps parseString_steps expectWord_steps makeObject_steps)
    qed
  qed
  have 2: "parseElements (Suc n) cs \<noteq> OutOfSteps" if b: "2 * length cs + 2 \<le> Suc n" for cs
  proof
    assume o: "parseElements (Suc n) cs = OutOfSteps"
    from b have "2 * length cs + 1 \<le> n" by simp
    then have "parseValue n cs \<noteq> OutOfSteps" by (rule V)
    with o obtain v r1 where v: "parseValue n cs = Parsed (v, r1)"
      and f: "(case skipWs r1 of [] \<Rightarrow> SyntaxError
          | c # r' \<Rightarrow>
              if c = CHR '','' then andThen (parseElements n r') (\<lambda>(vs, r''). Parsed (v # vs, r''))
              else if c = CHR '']'' then Parsed ([v], r') else SyntaxError) = OutOfSteps"
      by (auto simp add: andThen_eq_OutOfSteps)
    from v have l1: "length r1 < length cs"
      using descent_consumes [of n] by blast
    from f obtain c r2 where s: "skipWs r1 = c # r2"
      by (cases "skipWs r1") auto
    then have "length r2 < length r1" by (rule skipWs_Cons_length)
    with l1 b have "2 * length r2 + 2 \<le> n" by simp
    then have "parseElements n r2 \<noteq> OutOfSteps" by (rule E)
    with f s show False
      by (auto simp add: andThen_eq_OutOfSteps split: if_splits)
  qed
  have 3: "parseMembers (Suc n) cs \<noteq> OutOfSteps" if b: "2 * length cs + 2 \<le> Suc n" for cs
  proof
    assume o: "parseMembers (Suc n) cs = OutOfSteps"
    then obtain c r0 where s0: "skipWs cs = c # r0"
      by (cases "skipWs cs") auto
    then have l0: "length r0 < length cs" by (rule skipWs_Cons_length)
    from o s0 have c: "c = dq" by (auto split: if_splits)
    with o s0 parseString_steps [of r0] obtain k r1 where k: "parseString r0 = Parsed (k, r1)"
      by (auto simp add: andThen_eq_OutOfSteps)
    then have l1: "length r1 < length r0" by (rule parseString_consumes)
    from o s0 c k obtain c1 r2 where s1: "skipWs r1 = c1 # r2"
      by (cases "skipWs r1") auto
    then have l2: "length r2 < length r1" by (rule skipWs_Cons_length)
    from o s0 c k s1 have c1: "c1 = CHR '':''" by (auto split: if_splits)
    from l0 l1 l2 b have "2 * length r2 + 1 \<le> n" by simp
    then have "parseValue n r2 \<noteq> OutOfSteps" by (rule V)
    with o s0 c k s1 c1 obtain v r3 where v: "parseValue n r2 = Parsed (v, r3)"
      and f: "(case skipWs r3 of [] \<Rightarrow> SyntaxError
          | c3 # r4 \<Rightarrow>
              if c3 = CHR '','' then andThen (parseMembers n r4) (\<lambda>(ms, r5). Parsed ((k, v) # ms, r5))
              else if c3 = CHR ''}'' then Parsed ([(k, v)], r4) else SyntaxError) = OutOfSteps"
      by (auto simp add: andThen_eq_OutOfSteps)
    from v have l3: "length r3 < length r2"
      using descent_consumes [of n] by blast
    from f obtain c3 r4 where s3: "skipWs r3 = c3 # r4"
      by (cases "skipWs r3") auto
    then have "length r4 < length r3" by (rule skipWs_Cons_length)
    with l0 l1 l2 l3 b have "2 * length r4 + 2 \<le> n" by simp
    then have "parseMembers n r4 \<noteq> OutOfSteps" by (rule M)
    with f s3 show False
      by (auto simp add: andThen_eq_OutOfSteps split: if_splits)
  qed
  from 1 2 3 show ?case by blast
qed

lemma parse_steps: "parse s \<noteq> OutOfSteps"
proof -
  have "parseValue (2 * length s + 1) s \<noteq> OutOfSteps"
    using descent_steps [of "2 * length s + 1"] by blast
  then show ?thesis
    by (auto simp add: parse_def simp del: parseValue.simps split: parsed.splits)
qed

subsection \<open>Loading what was saved\<close>

lemma isIndexKey_taskKeys: "\<not> list_ex isIndexKey taskKeys"
  by (simp add: taskKeys_def isIndexKey_def isDigit_def)

lemma plain_jsonOfTask: "plain (jsonOfTask x)"
  using isIndexKey_taskKeys by (simp add: jsonOfTask_def taskKeys_def split: option.splits)

lemma plainElements_map: "plainElements (map jsonOfTask ts)"
  by (induction ts) (simp_all add: plain_jsonOfTask)

lemma plain_jsonOfTasks: "plain (jsonOfTasks ts)"
  by (simp add: jsonOfTasks_def plainElements_map)

lemma taskOfJson_jsonOfTask: "taskOfJson (jsonOfTask x) = Some x"
  by (cases "completedAt x")
    (simp_all add: taskOfJson_def jsonOfTask_def taskKeys_def stringOf_def nullableStringOf_def)

lemma tasksOfJson_jsonOfTasks: "tasksOfJson (jsonOfTasks ts) = Some ts"
  by (induction ts) (simp_all add: tasksOfJson_def jsonOfTasks_def taskOfJson_jsonOfTask)

lemma stringOf_Some: "stringOf j = Some s \<longleftrightarrow> j = JString s"
  by (cases j) (simp_all add: stringOf_def)

lemma nullableStringOf_Some:
  "nullableStringOf j = Some co \<longleftrightarrow> j = (case co of None \<Rightarrow> JNull | Some t \<Rightarrow> JString t)"
  by (cases j; cases co) (simp_all add: nullableStringOf_def)

lemma those_Cons_Some:
  "those (x # xs) = Some ys \<longleftrightarrow> (\<exists>y ys'. x = Some y \<and> those xs = Some ys' \<and> ys = y # ys')"
  by (cases x) (auto simp add: map_option_case split: option.splits)

lemma jsonOfTask_taskOfJson:
  assumes "taskOfJson j = Some x"
  shows "jsonOfTask x = j"
proof -
  from assms obtain ms where j: "j = JObject ms" and k: "map fst ms = taskKeys"
    by (cases j) (auto simp add: taskOfJson_def split: if_splits)
  from k obtain v1 v2 v3 v4 v5 v6 v7 v8 v9 where ms: "ms =
      [(''title'', v1), (''priority'', v2), (''category'', v3), (''due'', v4), (''notes'', v5),
       (''stage'', v6), (''id'', v7), (''createdAt'', v8), (''completedAt'', v9)]"
    by (auto simp add: taskKeys_def map_eq_Cons_conv)
  from assms show ?thesis
    unfolding j ms
    by (auto simp add: taskOfJson_def taskKeys_def jsonOfTask_def those_Cons_Some stringOf_Some
        nullableStringOf_Some split: option.splits list.splits)
qed

lemma jsonOfTasks_tasksOfJson:
  assumes "tasksOfJson j = Some ts"
  shows "jsonOfTasks ts = j"
proof -
  from assms obtain xs where j: "j = JArray xs" and t: "those (map taskOfJson xs) = Some ts"
    by (cases j) (auto simp add: tasksOfJson_def)
  from t have "map jsonOfTask ts = xs"
  proof (induction xs arbitrary: ts)
    case Nil
    then show ?case by simp
  next
    case (Cons x xs)
    then show ?case
      by (auto simp add: jsonOfTask_taskOfJson split: option.splits)
  qed
  then show ?thesis by (simp add: j jsonOfTasks_def)
qed

lemma stringify_jsonOfTasks_nonempty: "stringify (jsonOfTasks ts) \<noteq> []"
  by (simp add: jsonOfTasks_def)

lemma parse_saved: "parse (stringify (jsonOfTasks ts)) = Parsed (jsonOfTasks ts)"
  by (rule parse_stringify) (rule plain_jsonOfTasks)

text \<open>
  Claim C6. When the application has loaded and the store takes the text, the load effect
  run on the store that the persist effect has written gives exactly the saved task
  array, every field of every task; the persist effect run after that load writes the
  same text again, so the store is unchanged; and for every stored text that loads as a
  task array, the persist effect after the load writes a text that parses to the same
  value as the stored one.
\<close>

theorem load_after_save:
  assumes "loaded a" and "accepts (stringify (jsonOfTasks (tasks a)))"
  shows "loadTasks (snd (persistTasks accepts a store)) b
           = Some (b\<lparr>tasks := tasks a, loaded := True\<rparr>) \<and>
         persistTasks accepts (b\<lparr>tasks := tasks a, loaded := True\<rparr>)
             (snd (persistTasks accepts a store))
           = (b\<lparr>tasks := tasks a, loaded := True\<rparr>, snd (persistTasks accepts a store)) \<and>
         (\<forall>doc j ts.
            store ''cybertasks'' = Some doc \<and> doc \<noteq> [] \<and> parse doc = Parsed j \<and>
            tasksOfJson j = Some ts \<and> accepts (stringify j) \<longrightarrow>
              loadTasks store b = Some (b\<lparr>tasks := ts, loaded := True\<rparr>) \<and>
              snd (persistTasks accepts (b\<lparr>tasks := ts, loaded := True\<rparr>) store) ''cybertasks''
                = Some (stringify j) \<and>
              parse (stringify j) = parse doc)"
proof -
  let ?t = "stringify (jsonOfTasks (tasks a))"
  have s: "snd (persistTasks accepts a store) = store(''cybertasks'' \<mapsto> ?t)"
    using assms by (simp add: persistTasks_def Let_def)
  have 1: "loadTasks (store(''cybertasks'' \<mapsto> ?t)) b = Some (b\<lparr>tasks := tasks a, loaded := True\<rparr>)"
    by (simp add: loadTasks_def Let_def stringify_jsonOfTasks_nonempty parse_saved
        tasksOfJson_jsonOfTasks)
  have 2: "persistTasks accepts (b\<lparr>tasks := tasks a, loaded := True\<rparr>) (store(''cybertasks'' \<mapsto> ?t))
      = (b\<lparr>tasks := tasks a, loaded := True\<rparr>, store(''cybertasks'' \<mapsto> ?t))"
    using assms(2) by (simp add: persistTasks_def Let_def)
  have 3: "loadTasks store b = Some (b\<lparr>tasks := ts, loaded := True\<rparr>) \<and>
      snd (persistTasks accepts (b\<lparr>tasks := ts, loaded := True\<rparr>) store) ''cybertasks''
        = Some (stringify j) \<and>
      parse (stringify j) = parse doc"
    if "store ''cybertasks'' = Some doc" "doc \<noteq> []" "parse doc = Parsed j"
      "tasksOfJson j = Some ts" "accepts (stringify j)" for doc j ts
  proof -
    from that(4) have j: "jsonOfTasks ts = j"
      by (rule jsonOfTasks_tasksOfJson)
    have "loadTasks store b = Some (b\<lparr>tasks := ts, loaded := True\<rparr>)"
      using that by (simp add: loadTasks_def Let_def)
    moreover have "snd (persistTasks accepts (b\<lparr>tasks := ts, loaded := True\<rparr>) store) ''cybertasks''
        = Some (stringify j)"
      using that(5) by (simp add: persistTasks_def Let_def j)
    moreover have "parse (stringify j) = parse doc"
      using parse_saved [of ts] that(3) by (simp add: j)
    ultimately show ?thesis
      by blast
  qed
  from 1 2 3 show ?thesis
    unfolding s by blast
qed

theorem load_after_save_witness:
  "loaded ex_board \<and>
   loadTasks (snd (persistTasks (\<lambda>t. True) ex_board Map.empty)) initial
     = Some (initial\<lparr>tasks := [ex_A, ex_B], loaded := True\<rparr>) \<and>
   persistTasks (\<lambda>t. True) (initial\<lparr>tasks := [ex_A, ex_B], loaded := True\<rparr>)
       (snd (persistTasks (\<lambda>t. True) ex_board Map.empty))
     = (initial\<lparr>tasks := [ex_A, ex_B], loaded := True\<rparr>,
        snd (persistTasks (\<lambda>t. True) ex_board Map.empty))"
proof -
  have l: "loaded ex_board" and t: "tasks ex_board = [ex_A, ex_B]"
    by (simp_all add: ex_defs)
  have a: "(\<lambda>t. True) (stringify (jsonOfTasks (tasks ex_board)))"
    by simp
  from load_after_save [of ex_board "\<lambda>t. True" Map.empty initial, OF l a] l
  show ?thesis
    unfolding t by blast
qed

end
